theory Spec2Isabelle
  imports Complex_Main "HOL-Library.Word" "HOL-Library.Log_Nat"
begin

section \<open>JavaScript strings and values\<close>

text \<open>
  A JavaScript string is a sequence of UTF-16 code units, and \<open>.length\<close> counts code
  units. String literals of the source are ASCII; \<open>js\<close> embeds them.
\<close>

type_synonym code_unit = "16 word"
type_synonym jsstring = "code_unit list"

definition js :: "string \<Rightarrow> jsstring" where
  "js s = map of_char s"

text \<open>
  \<open>arr[i]\<close> on a JavaScript array: the element, or \<open>undefined\<close> (here \<open>None\<close>) when
  the index is out of range. It never throws.
\<close>

definition index :: "'a list \<Rightarrow> nat \<Rightarrow> 'a option" where
  "index xs i = (if i < length xs then Some (xs ! i) else None)"

text \<open>
  \<open>self.indexOf(value)\<close>: the first position holding \<open>value\<close>. The source only calls
  it on elements of \<open>self\<close>; on a missing value JavaScript answers -1, here \<open>None\<close>.
\<close>

fun indexOf :: "'a list \<Rightarrow> 'a \<Rightarrow> nat option" where
  "indexOf [] v = None"
| "indexOf (x # xs) v = (if x = v then Some 0 else map_option Suc (indexOf xs v))"

text \<open>
  \<open>.filter((value, index, self) => self.indexOf(value) === index)\<close>, the
  de-duplication of lines 59 and 80.
\<close>

definition dedupe :: "'a list \<Rightarrow> 'a list" where
  "dedupe self = map fst (filter (\<lambda>(v, i). indexOf self v = Some i) (zip self [0 ..< length self]))"

section \<open>Text extraction (lines 210-213)\<close>

text \<open>
  The class \<open>\s\<close> of a JavaScript regular expression and the characters removed by
  \<open>String.prototype.trim\<close> are the same set: WhiteSpace and LineTerminator of the
  language specification.
\<close>

definition isWhiteSpace :: "code_unit \<Rightarrow> bool" where
  "isWhiteSpace c \<longleftrightarrow>
     c \<in> set [0x9, 0xA, 0xB, 0xC, 0xD, 0x20, 0xA0, 0x1680, 0x2028, 0x2029,
               0x202F, 0x205F, 0x3000, 0xFEFF]
     \<or> (0x2000 \<le> c \<and> c \<le> 0x200A)"

text \<open>\<open>.replace(/\s+/g, ' ')\<close>: every maximal run of whitespace becomes one U+0020.\<close>

function collapseWhitespace :: "jsstring \<Rightarrow> jsstring" where
  "collapseWhitespace [] = []"
| "collapseWhitespace (c # cs) =
     (if isWhiteSpace c then 0x20 # collapseWhitespace (dropWhile isWhiteSpace cs)
      else c # collapseWhitespace cs)"
  by pat_completeness auto
termination
  by (relation "measure length") (simp_all add: length_dropWhile_le less_Suc_eq_le)

text \<open>\<open>.trim()\<close>: whitespace removed from both ends.\<close>

definition trim :: "jsstring \<Rightarrow> jsstring" where
  "trim s = rev (dropWhile isWhiteSpace (rev (dropWhile isWhiteSpace s)))"

text \<open>
  The document tree of cheerio: text nodes, elements with their lower-case tag name
  and children, and nodes without text of their own (comments, the doctype).
\<close>

datatype node = TextNode jsstring | Element jsstring "node list" | CommentNode jsstring

text \<open>
  \<open>$(selector)\<close> with a tag name as selector: every element of that name, in document
  order.
\<close>

fun selectTag :: "jsstring \<Rightarrow> node \<Rightarrow> node list" where
  "selectTag tag (Element name children) =
     (if name = tag then [Element name children] else [])
     @ concat (map (selectTag tag) children)"
| "selectTag tag (TextNode d) = []"
| "selectTag tag (CommentNode d) = []"

text \<open>
  \<open>.text()\<close> of cheerio 1.0: the \<open>textContent\<close> of every selected element, one after
  the other. The text content of an element is the data of all the text nodes below
  it, whatever the element: the text inside \<open>script\<close> and \<open>style\<close> elements is part of
  it (the documentation of \<open>.text()\<close> says so).
\<close>

fun textContent :: "node \<Rightarrow> jsstring" where
  "textContent (TextNode d) = d"
| "textContent (Element name children) = concat (map textContent children)"
| "textContent (CommentNode d) = []"

definition textOf :: "node list \<Rightarrow> jsstring" where
  "textOf selection = concat (map textContent selection)"

text \<open>
  \<open>extractText(html)\<close>. Parsing the capture, \<open>cheerio.load(html)\<close>, is the parameter
  \<open>cheerioLoad\<close>: it gives the nodes at the top of the document.
\<close>

definition bodyText :: "node list \<Rightarrow> jsstring" where
  "bodyText document = textOf (concat (map (selectTag (js ''body'')) document))"

definition extractText :: "(jsstring \<Rightarrow> node list) \<Rightarrow> jsstring \<Rightarrow> jsstring" where
  "extractText cheerioLoad html = trim (collapseWhitespace (bodyText (cheerioLoad html)))"

text \<open>
  The specification's wording of the text that is extracted: the visible text of the
  body, which leaves out what stands inside \<open>script\<close> and \<open>style\<close> elements.
\<close>

fun spec_visible_text :: "node \<Rightarrow> jsstring" where
  "spec_visible_text (TextNode d) = d"
| "spec_visible_text (Element name children) =
     (if name = js ''script'' \<or> name = js ''style'' then []
      else concat (map spec_visible_text children))"
| "spec_visible_text (CommentNode d) = []"

definition spec_body_text :: "node list \<Rightarrow> jsstring" where
  "spec_body_text document =
     concat (map spec_visible_text (concat (map (selectTag (js ''body'')) document)))"

text \<open>
  The specification's wording of the same normalisation, for comparison with the code:
  the words of a text are its maximal runs of non-whitespace characters, and the
  normalised text is those words joined by single spaces.
\<close>

fun split_words :: "jsstring \<Rightarrow> jsstring \<Rightarrow> jsstring list" where
  "split_words cur [] = (if cur = [] then [] else [cur])"
| "split_words cur (c # cs) =
     (if isWhiteSpace c then (if cur = [] then split_words [] cs else cur # split_words [] cs)
      else split_words (cur @ [c]) cs)"

fun join_spaces :: "jsstring list \<Rightarrow> jsstring" where
  "join_spaces [] = []"
| "join_spaces [w] = w"
| "join_spaces (w # v # ws) = w @ 0x20 # join_spaces (v # ws)"

definition spec_normalised_text :: "jsstring \<Rightarrow> jsstring" where
  "spec_normalised_text t = join_spaces (split_words [] t)"

definition spec_extractText :: "(jsstring \<Rightarrow> node list) \<Rightarrow> jsstring \<Rightarrow> jsstring" where
  "spec_extractText cheerioLoad html = spec_normalised_text (spec_body_text (cheerioLoad html))"

text \<open>
  The shape of a text whose whitespace is collapsed and trimmed: every whitespace
  character is a single U+0020 standing between two non-whitespace characters.
  \<open>single_spaced\<close> is the same condition on neighbours, by recursion.
\<close>

definition whitespace_normal :: "jsstring \<Rightarrow> bool" where
  "whitespace_normal r \<longleftrightarrow>
     (\<forall>i < length r. isWhiteSpace (r ! i) \<longrightarrow>
        r ! i = 0x20 \<and> 0 < i \<and> Suc i < length r
        \<and> \<not> isWhiteSpace (r ! (i - 1)) \<and> \<not> isWhiteSpace (r ! Suc i))"

fun single_spaced :: "jsstring \<Rightarrow> bool" where
  "single_spaced [] = True"
| "single_spaced (c # cs) =
     ((isWhiteSpace c \<longrightarrow> c = 0x20 \<and> (cs \<noteq> [] \<longrightarrow> \<not> isWhiteSpace (hd cs)))
      \<and> single_spaced cs)"

section \<open>SSR percentage (lines 231-242)\<close>

text \<open>
  JavaScript numbers are IEEE 754 doubles. \<open>roundDouble x\<close> is the double nearest to
  the real number \<open>x\<close>: 53 significant bits, a tie going to the even significand. The
  exponent is not bounded here: the numbers of this program are quotients of two
  string lengths (below \<open>2^53\<close>) and a hundred times such a quotient, far from overflow
  and underflow.
  \<^item> \<open>binade x\<close> is the exponent \<open>e\<close> with \<open>2^e \<le> x < 2^(e+1)\<close>, for \<open>x > 0\<close>;
  \<^item> \<open>roundHalfEven m\<close> is the integer nearest to \<open>m\<close>, the even one on a tie.
\<close>

definition roundHalfEven :: "rat \<Rightarrow> int" where
  "roundHalfEven m =
     (let f = \<lfloor>m\<rfloor>; d = m - of_int f
      in if d < 1 / 2 then f else if 1 / 2 < d then f + 1 else if even f then f else f + 1)"

definition binade :: "rat \<Rightarrow> int" where
  "binade x = (if 1 \<le> x then bitlen \<lfloor>x\<rfloor> - 1 else - bitlen (\<lceil>1 / x\<rceil> - 1))"

definition roundPositive :: "rat \<Rightarrow> rat" where
  "roundPositive x =
     (if binade x \<le> 52
      then of_int (roundHalfEven (x * 2 ^ nat (52 - binade x))) / 2 ^ nat (52 - binade x)
      else of_int (roundHalfEven (x / 2 ^ nat (binade x - 52))) * 2 ^ nat (binade x - 52))"

definition roundDouble :: "rat \<Rightarrow> rat" where
  "roundDouble x =
     (if x = 0 then 0 else if 0 < x then roundPositive x else - roundPositive (- x))"

text \<open>
  A JavaScript number, as far as this program computes with one: a finite double (its
  exact value), the infinity that \<open>x / 0\<close> gives for \<open>x > 0\<close>, or NaN (\<open>0 / 0\<close>).
  \<open>js_divide\<close> is \<open>/\<close> on two lengths and \<open>js_times100\<close> is \<open>* 100\<close>, each rounded as
  IEEE arithmetic rounds.
\<close>

datatype jsnum = Fin rat | PosInfinity | NaN

definition js_divide :: "nat \<Rightarrow> nat \<Rightarrow> jsnum" where
  "js_divide a b =
     (if b = 0 then (if a = 0 then NaN else PosInfinity)
      else Fin (roundDouble (of_nat a / of_nat b)))"

fun js_times100 :: "jsnum \<Rightarrow> jsnum" where
  "js_times100 (Fin x) = Fin (roundDouble (x * 100))"
| "js_times100 PosInfinity = PosInfinity"
| "js_times100 NaN = NaN"

text \<open>
  The values \<open>calculateSSRPercentage\<close> can return: the number of line 238, or the string
  of \<open>toFixed(2)\<close>. \<open>SsrFixed n\<close> is the decimal numeral of \<open>n / 100\<close> with two fraction
  digits (\<open>SsrFixed 6667\<close> is the string "66.67"). For a number that is not negative,
  \<open>toFixed\<close> picks the integer \<open>n\<close> for which \<open>n / 100\<close> is closest to the exact value
  of the double, the larger one on a tie; no number of this program is negative, and
  all stay below \<open>10^21\<close>, where \<open>toFixed\<close> would change to exponent notation.
\<close>

datatype ssr_value = SsrNumber jsnum | SsrFixed int | SsrInfinityText | SsrNaNText

fun toFixed2 :: "jsnum \<Rightarrow> ssr_value" where
  "toFixed2 (Fin x) = SsrFixed \<lfloor>x * 100 + 1 / 2\<rfloor>"
| "toFixed2 PosInfinity = SsrInfinityText"
| "toFixed2 NaN = SsrNaNText"

definition calculateSSRPercentage ::
    "(jsstring \<Rightarrow> node list) \<Rightarrow> jsstring \<Rightarrow> jsstring \<Rightarrow> ssr_value" where
  "calculateSSRPercentage cheerioLoad initialHtml finalHtml =
     (let initialText = extractText cheerioLoad initialHtml;
          finalText = extractText cheerioLoad finalHtml;
          initialLength = length initialText;
          finalLength = length finalText
      in if finalLength = 0 then SsrNumber (Fin 0)
         else toFixed2 (js_times100 (js_divide initialLength finalLength)))"

text \<open>
  \<open>parseFloat\<close> of such a value (lines 306, 334 and 360): the double nearest to the
  decimal numeral.
\<close>

fun parseFloat :: "ssr_value \<Rightarrow> jsnum" where
  "parseFloat (SsrNumber x) = x"
| "parseFloat (SsrFixed n) = Fin (roundDouble (of_int n / 100))"
| "parseFloat SsrInfinityText = PosInfinity"
| "parseFloat SsrNaNText = NaN"

text \<open>
  What the specification promises of the value: a number between 0 and 100. The
  value of a string of \<open>toFixed\<close> is the decimal number it spells.
\<close>

definition in_percent_range :: "ssr_value \<Rightarrow> bool" where
  "in_percent_range v =
     (case v of
        SsrNumber (Fin x) \<Rightarrow> 0 \<le> x \<and> x \<le> 100
      | SsrFixed n \<Rightarrow> 0 \<le> n \<and> n \<le> 10000
      | _ \<Rightarrow> False)"

definition is_nan_or_undefined :: "ssr_value \<Rightarrow> bool" where
  "is_nan_or_undefined v = (v = SsrNumber NaN \<or> v = SsrNaNText)"

section \<open>Page selection (lines 244-261)\<close>

text \<open>
  \<open>/product|blog|articles|post|category|news|shop|item|service/i.test(url)\<close>: some
  keyword occurs in the URL, letters compared without case. The keywords are ASCII
  letters, and a pattern without the \<open>u\<close> flag never folds a character of code 128 or
  more onto an ASCII letter, so only A-Z are folded.
\<close>

definition asciiLower :: "code_unit \<Rightarrow> code_unit" where
  "asciiLower c = (if 0x41 \<le> c \<and> c \<le> 0x5A then c + 0x20 else c)"

fun startsWith :: "jsstring \<Rightarrow> jsstring \<Rightarrow> bool" where
  "startsWith s [] = True"
| "startsWith [] (k # ks) = False"
| "startsWith (c # cs) (k # ks) = (c = k \<and> startsWith cs ks)"

fun hasSubstring :: "jsstring \<Rightarrow> jsstring \<Rightarrow> bool" where
  "hasSubstring [] k = (k = [])"
| "hasSubstring (c # cs) k = (startsWith (c # cs) k \<or> hasSubstring cs k)"

definition seoKeywords :: "jsstring list" where
  "seoKeywords = map js [''product'', ''blog'', ''articles'', ''post'', ''category'',
                         ''news'', ''shop'', ''item'', ''service'']"

definition isSEORelevantPage :: "jsstring \<Rightarrow> bool" where
  "isSEORelevantPage url = list_ex (hasSubstring (map asciiLower url)) seoKeywords"

text \<open>
  \<open>selectPages(urls)\<close>. Both call sites pass an array, so \<open>!urls\<close> is false and the
  first test is the one on the length. A slot of the result holds a URL or
  \<open>undefined\<close> (\<open>None\<close>): \<open>urls[0]\<close> of the empty array is \<open>undefined\<close>.
\<close>

definition selectPages :: "jsstring list \<Rightarrow> jsstring option list" where
  "selectPages urls =
     (if length urls < 3 then [index urls 0]
      else
        let homepage = index urls 0;
            relevantPages = filter isSEORelevantPage urls;
            midPage = (if length relevantPages > 0
                       then index relevantPages (length relevantPages div 2)
                       else index urls (length urls div 2));
            deepPage = (if length relevantPages > 1
                        then index relevantPages (length relevantPages - 1)
                        else index urls (length urls - 1))
        in [homepage, midPage, deepPage])"

section \<open>The outside world\<close>

text \<open>
  Network, browser and parsing libraries are not part of the program. Each call into
  them is a field of \<open>world\<close>; a call that throws returns \<open>Inl\<close>. Calls that reach the
  network or a browser also take the number of steps logged so far, so that the same
  URL may answer differently at different moments.
\<close>

datatype error = NetworkError | ParseError | TypeError | RenderError

text \<open>
  The part of an xml2js result that line 51 reads. \<open>result.urlset\<close> may be missing
  (\<open>NoUrlset\<close>), \<open>urlset.url\<close> may be missing (\<open>Urlset None\<close>), and an entry holds
  \<open>u.loc[0]\<close>, or \<open>None\<close> when the \<open><url>\<close> element has no \<open><loc>\<close> child. xml2js
  only creates non-empty arrays, so a present \<open>loc\<close> has a first element.
\<close>

datatype sitemap_document = NoUrlset | Urlset "jsstring option list option"

record capture =
  initialHtml :: jsstring
  finalHtml :: jsstring
  pageTitle :: jsstring

record world =
  detect :: "nat \<Rightarrow> jsstring \<Rightarrow> error + bool"
  homepageOf :: "jsstring \<Rightarrow> error + jsstring"
  httpGet :: "nat \<Rightarrow> jsstring \<Rightarrow> jsstring \<Rightarrow> error + jsstring"
  parseXml :: "jsstring \<Rightarrow> error + sitemap_document"
  anchorHrefs :: "jsstring \<Rightarrow> jsstring \<Rightarrow> error + jsstring list"
  renderedAnchors :: "nat \<Rightarrow> jsstring \<Rightarrow> error + jsstring list"
  render :: "nat \<Rightarrow> jsstring \<Rightarrow> error + capture"
  cheerioLoad :: "jsstring \<Rightarrow> node list"
  emailReport :: "nat \<Rightarrow> jsstring \<Rightarrow> capture \<Rightarrow> error + unit"

text \<open>
  \<^item> \<open>detect t url\<close>: lines 267-272, a browser opened on \<open>url\<close> and \<open>detectReact\<close> run
    in the page.
  \<^item> \<open>homepageOf url\<close>: \<open>getHomepageUrl\<close>, scheme and host of a parsed URL.
  \<^item> \<open>httpGet t base path\<close>: lines 45-46, the URL built from \<open>path\<close> and fetched;
    the value is \<open>response.data\<close>.
  \<^item> \<open>parseXml data\<close>: \<open>parser.parseStringPromise\<close>.
  \<^item> \<open>anchorHrefs data url\<close>: lines 55-58, the \<open>href\<close> of every anchor matching
    \<open>a[href^="/"]\<close>, resolved against \<open>url\<close>, in document order.
  \<^item> \<open>renderedAnchors t url\<close>: lines 73-79, the same anchors read from the live page.
  \<^item> \<open>render t url\<close>: lines 162-192 of \<open>analyzeSSR\<close>, the two page loads.
  \<^item> \<open>cheerioLoad html\<close>: \<open>cheerio.load(html)\<close>, the parsed document.
  \<^item> \<open>emailReport t url capture\<close>: lines 353-363, the word cloud rendered in a
    browser and the e-mail file written, for the page with the lowest percentage.
\<close>

text \<open>The rows of the CSV report, and the steps a run logs.\<close>

datatype cell = Value ssr_value | Text jsstring

record row =
  baseUrl :: jsstring
  analyzedUrl :: jsstring
  isReact :: bool
  ssrPercentage :: cell
  depth :: jsstring

datatype event =
    Detect jsstring
  | Fetch jsstring jsstring
  | Scrape jsstring
  | Analyze jsstring
  | WriteRecords "row list"
  | Email jsstring

text \<open>The rows a run has handed to \<open>csvWriter.writeRecords\<close>, in order.\<close>

fun written :: "event list \<Rightarrow> row list" where
  "written [] = []"
| "written (WriteRecords rs # es) = rs @ written es"
| "written (_ # es) = written es"

section \<open>Link discovery (lines 38-86)\<close>

definition scrapeInternalLinks ::
    "world \<Rightarrow> jsstring \<Rightarrow> event list \<Rightarrow> (error + jsstring list) \<times> event list" where
  "scrapeInternalLinks w url tr =
     (case renderedAnchors w (length tr) url of
        Inl e \<Rightarrow> (Inl e, tr @ [Scrape url])
      | Inr hrefs \<Rightarrow> (Inr (dedupe hrefs), tr @ [Scrape url]))"

text \<open>Line 51: \<open>result.urlset.url.map(u => u.loc[0])\<close>; reading a property of \<open>undefined\<close> throws.\<close>

fun xmlLinks :: "sitemap_document \<Rightarrow> error + jsstring list" where
  "xmlLinks NoUrlset = Inl TypeError"
| "xmlLinks (Urlset None) = Inl TypeError"
| "xmlLinks (Urlset (Some entries)) =
     (if list_all (\<lambda>u. u \<noteq> None) entries then Inr (map the entries) else Inl TypeError)"

definition sitemapPaths :: "jsstring list" where
  "sitemapPaths = [js ''sitemap.xml'', js ''sitemap'', js ''site-map'']"

text \<open>
  The loop of lines 42-66 over the remaining paths: \<open>Some links\<close> is the \<open>return\<close> of
  line 53 or 61, \<open>None\<close> the end of the loop. Every exception of the body is caught by
  line 63 and the loop goes on.
\<close>

fun trySitemapPaths ::
    "world \<Rightarrow> jsstring \<Rightarrow> jsstring \<Rightarrow> jsstring list \<Rightarrow> event list
     \<Rightarrow> jsstring list option \<times> event list" where
  "trySitemapPaths w url base [] tr = (None, tr)"
| "trySitemapPaths w url base (path # paths) tr =
     (case httpGet w (length tr) base path of
        Inl e \<Rightarrow> trySitemapPaths w url base paths (tr @ [Fetch base path])
      | Inr data \<Rightarrow>
          if path = js ''sitemap.xml'' then
            (case parseXml w data of
               Inl e \<Rightarrow> trySitemapPaths w url base paths (tr @ [Fetch base path])
             | Inr result \<Rightarrow>
                 (case xmlLinks result of
                    Inl e \<Rightarrow> trySitemapPaths w url base paths (tr @ [Fetch base path])
                  | Inr links \<Rightarrow> (Some links, tr @ [Fetch base path])))
          else
            (case anchorHrefs w data url of
               Inl e \<Rightarrow> trySitemapPaths w url base paths (tr @ [Fetch base path])
             | Inr hrefs \<Rightarrow> (Some (dedupe hrefs), tr @ [Fetch base path])))"

text \<open>Line 40: \<open>url.endsWith('/') ? url.slice(0, -1) : url\<close>.\<close>

definition withoutTrailingSlash :: "jsstring \<Rightarrow> jsstring" where
  "withoutTrailingSlash url = (if url \<noteq> [] \<and> last url = 0x2F then butlast url else url)"

definition fetchSitemap ::
    "world \<Rightarrow> jsstring \<Rightarrow> event list \<Rightarrow> (error + jsstring list) \<times> event list" where
  "fetchSitemap w url tr =
     (let base = withoutTrailingSlash url
      in case trySitemapPaths w url base sitemapPaths tr of
           (Some links, tr') \<Rightarrow> (Inr links, tr')
         | (None, tr') \<Rightarrow> scrapeInternalLinks w url tr')"

section \<open>Dual-render analysis (lines 160-208)\<close>

text \<open>The object \<open>analyzeSSR\<close> returns: the capture and its percentage (lines 195-202).\<close>

definition analyzeSSR ::
    "world \<Rightarrow> jsstring \<Rightarrow> event list \<Rightarrow> (error + capture \<times> ssr_value) \<times> event list" where
  "analyzeSSR w url tr =
     (case render w (length tr) url of
        Inl e \<Rightarrow> (Inl e, tr @ [Analyze url])
      | Inr c \<Rightarrow>
          (Inr (c, calculateSSRPercentage (cheerioLoad w) (initialHtml c) (finalHtml c)),
           tr @ [Analyze url]))"

section \<open>The orchestrator (lines 263-376)\<close>

text \<open>\<open>if (pageUrl)\<close>: \<open>undefined\<close> and the empty string are falsy.\<close>

fun truthy :: "jsstring option \<Rightarrow> bool" where
  "truthy None = False"
| "truthy (Some s) = (s \<noteq> [])"

text \<open>\<open>a < b\<close> on numbers; false whenever one side is NaN.\<close>

fun js_less :: "jsnum \<Rightarrow> jsnum \<Rightarrow> bool" where
  "js_less (Fin x) (Fin y) = (x < y)"
| "js_less (Fin x) PosInfinity = True"
| "js_less _ _ = False"

text \<open>
  \<open>lowestSSRPage\<close>: \<open>null\<close>, or the URL, capture and percentage of the page with the
  lowest percentage so far.
\<close>

type_synonym lowest_page = "(jsstring \<times> capture \<times> ssr_value) option"

definition isLower :: "ssr_value \<Rightarrow> lowest_page \<Rightarrow> bool" where
  "isLower ssr low =
     (case low of
        None \<Rightarrow> True
      | Some (u, c, lowSsr) \<Rightarrow> js_less (parseFloat ssr) (parseFloat lowSsr))"

text \<open>
  The loop of lines 295-316 (and its copy, lines 323-344) over the remaining pairs of
  page URL and depth label. An exception of \<open>analyzeSSR\<close> leaves the loop: the result
  is \<open>Inl\<close>, and the rows collected so far are not part of it.
\<close>

fun analyzePages ::
    "world \<Rightarrow> jsstring \<Rightarrow> (jsstring option \<times> jsstring) list \<Rightarrow> row list \<Rightarrow> lowest_page
     \<Rightarrow> event list \<Rightarrow> (error + row list \<times> lowest_page) \<times> event list" where
  "analyzePages w base [] results low tr = (Inr (results, low), tr)"
| "analyzePages w base ((pageUrl, depthLabel) # rest) results low tr =
     (if truthy pageUrl then
        (case analyzeSSR w (the pageUrl) tr of
           (Inl e, tr') \<Rightarrow> (Inl e, tr')
         | (Inr (c, ssr), tr') \<Rightarrow>
             analyzePages w base rest
               (results @ [\<lparr>baseUrl = base, analyzedUrl = the pageUrl, isReact = True,
                             ssrPercentage = Value ssr, depth = depthLabel\<rparr>])
               (if isLower ssr low then Some (the pageUrl, c, ssr) else low)
               tr')
      else analyzePages w base rest results low tr)"

text \<open>
  \<open>const [homePage, midPage, deepPage] = selectPages(links)\<close> followed by the loop: a
  slot missing from a shorter array is \<open>undefined\<close>.
\<close>

definition slot :: "jsstring option list \<Rightarrow> nat \<Rightarrow> jsstring option" where
  "slot sel i = (case index sel i of None \<Rightarrow> None | Some v \<Rightarrow> v)"

definition analyzeSelected ::
    "world \<Rightarrow> jsstring \<Rightarrow> jsstring list \<Rightarrow> event list
     \<Rightarrow> (error + row list \<times> lowest_page) \<times> event list" where
  "analyzeSelected w base links tr =
     (let sel = selectPages links;
          homePage = slot sel 0; midPage = slot sel 1; deepPage = slot sel 2
      in analyzePages w base
           [(homePage, js ''Homepage''), (midPage, js ''Mid''), (deepPage, js ''Deep'')]
           [] None tr)"

text \<open>
  Lines 286-346: discovery, then the analysis of the selected pages. In this part the
  framework was detected, so \<open>isReact\<close> is true in every row.
\<close>

definition collectResults ::
    "world \<Rightarrow> jsstring \<Rightarrow> event list \<Rightarrow> (error + row list \<times> lowest_page) \<times> event list" where
  "collectResults w base tr =
     (case homepageOf w base of
        Inl e \<Rightarrow> (Inl e, tr)
      | Inr homepageUrl \<Rightarrow>
          (case fetchSitemap w homepageUrl tr of
             (Inl e, tr1) \<Rightarrow> (Inl e, tr1)
           | (Inr sitemapUrls, tr1) \<Rightarrow>
               if length sitemapUrls > 2 then analyzeSelected w base sitemapUrls tr1
               else
                 (case scrapeInternalLinks w homepageUrl tr1 of
                    (Inl e, tr2) \<Rightarrow> (Inl e, tr2)
                  | (Inr internalLinks, tr2) \<Rightarrow>
                      if length internalLinks > 0 then analyzeSelected w base internalLinks tr2
                      else (Inr ([], None), tr2))))"

definition notApplicableRow :: "jsstring \<Rightarrow> row" where
  "notApplicableRow base =
     \<lparr>baseUrl = base, analyzedUrl = base, isReact = False,
      ssrPercentage = Text (js ''N/A''), depth = js ''N/A''\<rparr>"

definition errorRow :: "jsstring \<Rightarrow> row" where
  "errorRow inputUrl =
     \<lparr>baseUrl = inputUrl, analyzedUrl = inputUrl, isReact = False,
      ssrPercentage = Text (js ''Error''), depth = js ''Error''\<rparr>"

text \<open>
  The \<open>try\<close> block of \<open>analyzeWebsite\<close> (lines 265-364): \<open>Some e\<close> when it throws
  \<open>e\<close>, \<open>None\<close> when it ends or returns.
\<close>

definition analyzeWebsiteTry ::
    "world \<Rightarrow> jsstring \<Rightarrow> event list \<Rightarrow> error option \<times> event list" where
  "analyzeWebsiteTry w inputUrl tr =
     (case detect w (length tr) inputUrl of
        Inl e \<Rightarrow> (Some e, tr @ [Detect inputUrl])
      | Inr react \<Rightarrow>
          if \<not> react
          then (None, tr @ [Detect inputUrl, WriteRecords [notApplicableRow inputUrl]])
          else
            (case collectResults w inputUrl (tr @ [Detect inputUrl]) of
               (Inl e, tr1) \<Rightarrow> (Some e, tr1)
             | (Inr (results, lowestSSRPage), tr1) \<Rightarrow>
                 (case lowestSSRPage of
                    None \<Rightarrow> (None, tr1 @ [WriteRecords results])
                  | Some (u, c, ssr) \<Rightarrow>
                      (case emailReport w (Suc (length tr1)) u c of
                         Inl e \<Rightarrow> (Some e, tr1 @ [WriteRecords results, Email u])
                       | Inr _ \<Rightarrow> (None, tr1 @ [WriteRecords results, Email u])))))"

text \<open>\<open>analyzeWebsite\<close>: the \<open>try\<close> block and its \<open>catch\<close> (lines 366-375).\<close>

definition analyzeWebsite :: "world \<Rightarrow> jsstring \<Rightarrow> event list \<Rightarrow> event list" where
  "analyzeWebsite w inputUrl tr =
     (case analyzeWebsiteTry w inputUrl tr of
        (None, tr') \<Rightarrow> tr'
      | (Some e, tr') \<Rightarrow> tr' @ [WriteRecords [errorRow inputUrl]])"

text \<open>The rows one call of \<open>analyzeWebsite\<close> adds to the report.\<close>

definition site_rows :: "world \<Rightarrow> jsstring \<Rightarrow> event list \<Rightarrow> row list" where
  "site_rows w url tr = drop (length (written tr)) (written (analyzeWebsite w url tr))"

text \<open>The loop of lines 394-396 over the input sites.\<close>

fun processWebsites :: "world \<Rightarrow> jsstring list \<Rightarrow> event list \<Rightarrow> event list" where
  "processWebsites w [] tr = tr"
| "processWebsites w (website # websites) tr =
     processWebsites w websites (analyzeWebsite w website tr)"

section \<open>Word frequencies (lines 215-229)\<close>

text \<open>
  \<open>text.toLowerCase()\<close>. Only the case mappings that end in ASCII are written out:
  A-Z, the Kelvin sign U+212A (to \<open>k\<close>) and U+0130 (to \<open>i\<close> followed by U+0307). Every
  other character is lower-cased by JavaScript to characters outside ASCII; it stays
  as it is here, which makes no difference to line 217, where all characters outside
  ASCII separate words.
\<close>

fun toLowerCase :: "jsstring \<Rightarrow> jsstring" where
  "toLowerCase [] = []"
| "toLowerCase (c # cs) =
     (if 0x41 \<le> c \<and> c \<le> 0x5A then (c + 0x20) # toLowerCase cs
      else if c = 0x212A then 0x6B # toLowerCase cs
      else if c = 0x130 then 0x69 # 0x307 # toLowerCase cs
      else c # toLowerCase cs)"

text \<open>The class \<open>\w\<close>: ASCII letters, digits and the underscore; \<open>\W\<close> is the rest.\<close>

definition isWordChar :: "code_unit \<Rightarrow> bool" where
  "isWordChar c \<longleftrightarrow>
     (0x41 \<le> c \<and> c \<le> 0x5A) \<or> (0x61 \<le> c \<and> c \<le> 0x7A) \<or> (0x30 \<le> c \<and> c \<le> 0x39)
     \<or> c = 0x5F"

text \<open>
  \<open>.split(/\W+/)\<close>: the pieces between the runs of separators; a separator at the
  start or at the end leaves an empty piece there, and the empty string gives one
  empty piece. \<open>cur\<close> is the piece being read.
\<close>

function splitNonWord :: "jsstring \<Rightarrow> jsstring \<Rightarrow> jsstring list" where
  "splitNonWord cur [] = [cur]"
| "splitNonWord cur (c # cs) =
     (if isWordChar c then splitNonWord (cur @ [c]) cs
      else cur # splitNonWord [] (dropWhile (\<lambda>d. \<not> isWordChar d) cs))"
  by pat_completeness auto
termination
  by (relation "measure (\<lambda>(cur, s). length s)")
     (simp_all add: length_dropWhile_le less_Suc_eq_le)

text \<open>The test of lines 221-223 on a word.\<close>

definition stopWords :: "jsstring list" where
  "stopWords = map js [''the'', ''and'', ''for'', ''with'', ''from'', ''this'', ''that'',
                       ''have'', ''not'', ''but'', ''are'']"

definition humanReadable :: "jsstring \<Rightarrow> bool" where
  "humanReadable word \<longleftrightarrow>
     2 < length word \<and> length word < 15
     \<and> word \<noteq> [] \<and> list_all (\<lambda>c. 0x61 \<le> c \<and> c \<le> 0x7A) word
     \<and> word \<notin> set stopWords"

text \<open>
  A frequency map is a JavaScript object made from \<open>{}\<close>: own keys in insertion order,
  each with its value (the keys are words of letters, so none is an array index that
  \<open>Object.keys\<close> would list first). Reading a key that is not an own key falls
  through to \<open>Object.prototype\<close>: the value is one of its members for the names
  below, and \<open>undefined\<close> for every other key.

  The values that can stand in such a map or be read from it:
  \<^item> \<open>Undefined\<close>;
  \<^item> \<open>Number n\<close>, a count;
  \<^item> \<open>Member m\<close>, a member of \<open>Object.prototype\<close>: a native function, or the
    prototype object itself under \<open>__proto__\<close>;
  \<^item> \<open>MemberText m k\<close>, the string that \<open>+ 1\<close> makes of such a member: the text of
    the member followed by \<open>k\<close> characters \<open>1\<close>. For the function \<open>Object\<close> and
    \<open>k = 1\<close> it is \<open>function Object() { [native code] }1\<close>. Such a string starts with
    a letter or a bracket, so it is not empty and, read as a number, it is NaN.
\<close>

datatype prototype_member = NativeFunction jsstring | PrototypeObject

datatype jsval = Undefined | Number nat | Member prototype_member
  | MemberText prototype_member nat

type_synonym frequency_map = "(jsstring \<times> jsval) list"

definition objectPrototype :: "(jsstring \<times> prototype_member) list" where
  "objectPrototype =
     [(js ''constructor'', NativeFunction (js ''Object'')),
      (js ''hasOwnProperty'', NativeFunction (js ''hasOwnProperty'')),
      (js ''isPrototypeOf'', NativeFunction (js ''isPrototypeOf'')),
      (js ''propertyIsEnumerable'', NativeFunction (js ''propertyIsEnumerable'')),
      (js ''toLocaleString'', NativeFunction (js ''toLocaleString'')),
      (js ''toString'', NativeFunction (js ''toString'')),
      (js ''valueOf'', NativeFunction (js ''valueOf'')),
      (js ''__defineGetter__'', NativeFunction (js ''__defineGetter__'')),
      (js ''__defineSetter__'', NativeFunction (js ''__defineSetter__'')),
      (js ''__lookupGetter__'', NativeFunction (js ''__lookupGetter__'')),
      (js ''__lookupSetter__'', NativeFunction (js ''__lookupSetter__'')),
      (js ''__proto__'', PrototypeObject)]"

text \<open>\<open>obj[k]\<close>, read.\<close>

definition getProperty :: "frequency_map \<Rightarrow> jsstring \<Rightarrow> jsval" where
  "getProperty obj k =
     (case map_of obj k of
        Some v \<Rightarrow> v
      | None \<Rightarrow> (case map_of objectPrototype k of Some m \<Rightarrow> Member m | None \<Rightarrow> Undefined))"

text \<open>
  \<open>obj[k] = v\<close>, for the keys of line 225 (words of lower-case letters): an own key
  keeps its place, a new key goes to the end.
\<close>

fun setProperty :: "frequency_map \<Rightarrow> jsstring \<Rightarrow> jsval \<Rightarrow> frequency_map" where
  "setProperty [] k v = [(k, v)]"
| "setProperty ((k', v') # rest) k v =
     (if k' = k then (k, v) # rest else (k', v') # setProperty rest k v)"

text \<open>
  \<open>(v || 0) + 1\<close>: \<open>undefined\<close> and 0 are falsy and give 1; a count gives the next
  count; a function, an object or a non-empty string is truthy, and \<open>+ 1\<close> appends the
  character \<open>1\<close> to its text.
\<close>

fun orZeroPlusOne :: "jsval \<Rightarrow> jsval" where
  "orZeroPlusOne Undefined = Number 1"
| "orZeroPlusOne (Number n) = Number (Suc n)"
| "orZeroPlusOne (Member m) = MemberText m 1"
| "orZeroPlusOne (MemberText m k) = MemberText m (Suc k)"

definition generateWordFrequencies :: "jsstring \<Rightarrow> frequency_map" where
  "generateWordFrequencies text =
     fold (\<lambda>word wordCounts.
             if humanReadable word
             then setProperty wordCounts word (orZeroPlusOne (getProperty wordCounts word))
             else wordCounts)
          (splitNonWord [] (toLowerCase text)) []"

section \<open>Word diff (lines 404-421)\<close>

text \<open>
  \<open>v || 0\<close> and \<open>v > 0\<close>: a function, an object or a non-empty string is truthy; compared
  with 0 it is first read as a number, which is NaN, and the comparison is false.
\<close>

fun orZero :: "jsval \<Rightarrow> jsval" where
  "orZero Undefined = Number 0"
| "orZero v = v"

fun greaterThanZero :: "jsval \<Rightarrow> bool" where
  "greaterThanZero (Number n) = (0 < n)"
| "greaterThanZero _ = False"

text \<open>\<open>new Set([...])\<close> iterates its distinct elements in order of first insertion.\<close>

definition newSet :: "'a list \<Rightarrow> 'a list" where
  "newSet xs = rev (remdups (rev xs))"

record word_entry =
  word :: jsstring
  weight :: jsval
  color :: jsstring

definition wordData :: "frequency_map \<Rightarrow> frequency_map \<Rightarrow> word_entry list" where
  "wordData userWordCounts googleWordCounts =
     (let allWords = newSet (map fst userWordCounts @ map fst googleWordCounts)
      in concat (map (\<lambda>w.
           let userCount = orZero (getProperty userWordCounts w);
               googleCount = orZero (getProperty googleWordCounts w)
           in if greaterThanZero userCount
              then [\<lparr>word = w, weight = userCount,
                     color = (if greaterThanZero googleCount then js ''#4CAF50''
                              else js ''#808080'')\<rparr>]
              else []) allWords))"

text \<open>
  The word diff of two texts, as lines 353-357 and 363 compute it for the page with the
  lowest percentage.
\<close>

definition wordDiff :: "jsstring \<Rightarrow> jsstring \<Rightarrow> word_entry list" where
  "wordDiff userText googleText =
     wordData (generateWordFrequencies userText) (generateWordFrequencies googleText)"

section \<open>Example sites\<close>

text \<open>
  A parser for the captures of the examples. A capture without markup parses to a
  document whose body holds the capture as one text node; \<open>scriptPage\<close> is a page
  with a script and a style sheet in its body.
\<close>

definition scriptPage :: jsstring where
  "scriptPage = js ''<html><head></head><body><script>var x;</script><style>p{}</style><p>Hi</p></body></html>''"

definition exampleLoad :: "jsstring \<Rightarrow> node list" where
  "exampleLoad html =
     (if html = scriptPage
      then [Element (js ''html'')
              [Element (js ''head'') [],
               Element (js ''body'')
                 [Element (js ''script'') [TextNode (js ''var x;'')],
                  Element (js ''style'') [TextNode (js ''p{}'')],
                  Element (js ''p'') [TextNode (js ''Hi'')]]]]
      else [Element (js ''html'')
              [Element (js ''head'') [], Element (js ''body'') [TextNode html]]])"

text \<open>
  A world for concrete runs. Detection answers \<open>react\<close>; only \<open>/sitemap.xml\<close> can be
  fetched and it parses to \<open>doc\<close>; the rendered homepage shows the links \<open>anchors\<close>;
  every page renders except those in \<open>broken\<close>.
\<close>

definition exampleWorld ::
    "bool \<Rightarrow> sitemap_document \<Rightarrow> jsstring list \<Rightarrow> jsstring list \<Rightarrow> world" where
  "exampleWorld react doc anchors broken =
     \<lparr>detect = (\<lambda>t u. Inr react),
      homepageOf = Inr,
      httpGet = (\<lambda>t base path.
         if path = js ''sitemap.xml'' then Inr (js ''<urlset/>'') else Inl NetworkError),
      parseXml = (\<lambda>data. Inr doc),
      anchorHrefs = (\<lambda>data url. Inl ParseError),
      renderedAnchors = (\<lambda>t u. Inr anchors),
      render = (\<lambda>t u.
         if u \<in> set broken then Inl RenderError
         else Inr \<lparr>initialHtml = js ''Shop'', finalHtml = js ''Shop now'',
                   pageTitle = js ''Shop''\<rparr>),
      cheerioLoad = exampleLoad,
      emailReport = (\<lambda>t u c. Inr ())\<rparr>"

definition site :: jsstring where
  "site = js ''https://a.test''"

definition pageA :: jsstring where
  "pageA = js ''https://a.test/''"

definition pageB :: jsstring where
  "pageB = js ''https://a.test/Blog/1''"

definition pageC :: jsstring where
  "pageC = js ''https://a.test/about''"

definition pageD :: jsstring where
  "pageD = js ''https://a.test/products''"

section \<open>Counts of the specification\<close>

text \<open>
  The count a frequency map holds for a word, in the specification's sense: the number
  stored under the word, and 0 for a word without one. \<open>wordEntry\<close> is the entry the
  specification describes for a word.
\<close>

definition frequency :: "frequency_map \<Rightarrow> jsstring \<Rightarrow> nat" where
  "frequency m w = (case map_of m w of Some (Number n) \<Rightarrow> n | _ \<Rightarrow> 0)"

definition wordEntry :: "frequency_map \<Rightarrow> frequency_map \<Rightarrow> jsstring \<Rightarrow> word_entry" where
  "wordEntry u g w =
     \<lparr>word = w, weight = Number (frequency u w),
      color = (if 0 < frequency g w then js ''#4CAF50'' else js ''#808080'')\<rparr>"

section \<open>Properties of text extraction\<close>

lemma space_isWhiteSpace: "isWhiteSpace 0x20"
  by (simp add: isWhiteSpace_def)

lemma split_words_dropWhile: "split_words [] (dropWhile isWhiteSpace s) = split_words [] s"
  by (induction s) simp_all

lemma split_words_collapse: "split_words cur (collapseWhitespace s) = split_words cur s"
proof (induction s arbitrary: cur rule: collapseWhitespace.induct)
  case 1
  show ?case by simp
next
  case (2 c cs)
  show ?case
  proof (cases "isWhiteSpace c")
    case True
    have "split_words [] (collapseWhitespace (dropWhile isWhiteSpace cs)) = split_words [] cs"
      using "2.IH"(1)[OF True, of "[]"] by (simp add: split_words_dropWhile)
    with True show ?thesis by (simp add: space_isWhiteSpace)
  next
    case False
    with "2.IH"(2)[OF False] show ?thesis by simp
  qed
qed

lemma split_words_all_ws:
  "\<forall>c \<in> set t. isWhiteSpace c \<Longrightarrow> split_words cur t = (if cur = [] then [] else [cur])"
  by (induction t arbitrary: cur) simp_all

lemma split_words_append_ws:
  "\<forall>c \<in> set t. isWhiteSpace c \<Longrightarrow> split_words cur (s @ t) = split_words cur s"
  by (induction s arbitrary: cur) (simp_all add: split_words_all_ws)

lemma trim_decomp:
  "dropWhile isWhiteSpace s = trim s @ rev (takeWhile isWhiteSpace (rev (dropWhile isWhiteSpace s)))"
  unfolding trim_def by (metis rev_append rev_rev_ident takeWhile_dropWhile_id)

lemma split_words_trim: "split_words [] (trim s) = split_words [] s"
proof -
  have "split_words [] (dropWhile isWhiteSpace s) = split_words [] (trim s)"
    by (subst trim_decomp, rule split_words_append_ws) (auto dest: set_takeWhileD)
  then show ?thesis by (simp add: split_words_dropWhile)
qed

lemma collapse_Nil_iff: "collapseWhitespace s = [] \<longleftrightarrow> s = []"
  by (cases s) simp_all

lemma collapse_hd:
  "s \<noteq> [] \<Longrightarrow> \<not> isWhiteSpace (hd s) \<Longrightarrow> \<not> isWhiteSpace (hd (collapseWhitespace s))"
  by (cases s) simp_all

lemma single_spaced_collapse: "single_spaced (collapseWhitespace s)"
proof (induction s rule: collapseWhitespace.induct)
  case 1
  show ?case by simp
next
  case (2 c cs)
  show ?case
  proof (cases "isWhiteSpace c")
    case True
    let ?d = "dropWhile isWhiteSpace cs"
    have "?d \<noteq> [] \<Longrightarrow> \<not> isWhiteSpace (hd ?d)"
      by (rule hd_dropWhile)
    then have "collapseWhitespace ?d \<noteq> [] \<longrightarrow> \<not> isWhiteSpace (hd (collapseWhitespace ?d))"
      using collapse_hd[of ?d] collapse_Nil_iff[of ?d] by blast
    with True "2.IH"(1)[OF True] show ?thesis by simp
  next
    case False
    with "2.IH"(2)[OF False] show ?thesis by simp
  qed
qed

lemma single_spaced_append:
  "single_spaced (xs @ ys) \<Longrightarrow> single_spaced xs \<and> single_spaced ys"
  by (induction xs) (auto simp: hd_append split: if_splits)

lemma single_spaced_trim: "single_spaced s \<Longrightarrow> single_spaced (trim s)"
proof -
  assume h: "single_spaced s"
  have "s = takeWhile isWhiteSpace s @ dropWhile isWhiteSpace s" by simp
  with h have "single_spaced (takeWhile isWhiteSpace s @ dropWhile isWhiteSpace s)" by simp
  then have "single_spaced (dropWhile isWhiteSpace s)"
    by (blast dest: single_spaced_append)
  then have "single_spaced (trim s @ rev (takeWhile isWhiteSpace (rev (dropWhile isWhiteSpace s))))"
    using trim_decomp[of s] by simp
  then show ?thesis by (blast dest: single_spaced_append)
qed

lemma trim_last: "trim s \<noteq> [] \<Longrightarrow> \<not> isWhiteSpace (last (trim s))"
  unfolding trim_def by (simp add: last_rev hd_dropWhile)

lemma trim_hd: "trim s \<noteq> [] \<Longrightarrow> \<not> isWhiteSpace (hd (trim s))"
proof -
  assume h: "trim s \<noteq> []"
  then have "hd (dropWhile isWhiteSpace s) = hd (trim s)"
    by (subst trim_decomp) simp
  moreover have "dropWhile isWhiteSpace s \<noteq> []"
  proof
    assume e: "dropWhile isWhiteSpace s = []"
    have "trim s = []" by (simp only: trim_def e rev.simps dropWhile.simps)
    with h show False by simp
  qed
  ultimately show ?thesis using hd_dropWhile[of isWhiteSpace s] by simp
qed

lemma join_spaces_Cons:
  "join_spaces (w # ws) = (if ws = [] then w else w @ 0x20 # join_spaces ws)"
  by (cases ws) simp_all

lemma join_split:
  "single_spaced r \<Longrightarrow> (r \<noteq> [] \<longrightarrow> \<not> isWhiteSpace (last r))
   \<Longrightarrow> (cur = [] \<longrightarrow> r \<noteq> [] \<longrightarrow> \<not> isWhiteSpace (hd r))
   \<Longrightarrow> join_spaces (split_words cur r) = cur @ r"
proof (induction r arbitrary: cur)
  case Nil
  then show ?case by simp
next
  case (Cons c cs)
  show ?case
  proof (cases "isWhiteSpace c")
    case True
    with Cons.prems have cur: "cur \<noteq> []" and c: "c = 0x20" and cs: "cs \<noteq> []"
      and hd: "\<not> isWhiteSpace (hd cs)" and ss: "single_spaced cs"
      and last: "\<not> isWhiteSpace (last cs)"
      by (auto split: if_splits)
    have ih: "join_spaces (split_words [] cs) = cs"
      using Cons.IH[of "[]"] ss last hd by simp
    with cs have "split_words [] cs \<noteq> []" by auto
    with True cur c ih show ?thesis by (simp add: join_spaces_Cons)
  next
    case False
    with Cons.prems have "join_spaces (split_words (cur @ [c]) cs) = (cur @ [c]) @ cs"
      by (intro Cons.IH) (auto split: if_splits)
    with False show ?thesis by simp
  qed
qed

lemma single_spaced_nth:
  "single_spaced r \<Longrightarrow> i < length r \<Longrightarrow> isWhiteSpace (r ! i)
   \<Longrightarrow> r ! i = 0x20 \<and> (Suc i < length r \<longrightarrow> \<not> isWhiteSpace (r ! Suc i))"
proof (induction r arbitrary: i)
  case Nil
  then show ?case by simp
next
  case (Cons c cs)
  show ?case
  proof (cases i)
    case 0
    with Cons.prems show ?thesis by (cases cs) auto
  next
    case (Suc j)
    with Cons.prems Cons.IH[of j] show ?thesis by simp
  qed
qed

lemma whitespace_normalI:
  assumes ss: "single_spaced r" and h: "r \<noteq> [] \<longrightarrow> \<not> isWhiteSpace (hd r)"
    and l: "r \<noteq> [] \<longrightarrow> \<not> isWhiteSpace (last r)"
  shows "whitespace_normal r"
  unfolding whitespace_normal_def
proof (intro allI impI)
  fix i assume i: "i < length r" and w: "isWhiteSpace (r ! i)"
  from i have ne: "r \<noteq> []" by auto
  have a: "r ! i = 0x20" and b: "Suc i < length r \<longrightarrow> \<not> isWhiteSpace (r ! Suc i)"
    using single_spaced_nth[OF ss i w] by simp_all
  have i0: "0 < i"
    using h ne w by (cases i) (simp_all add: hd_conv_nth)
  have il: "Suc i < length r"
  proof (rule ccontr)
    assume "\<not> Suc i < length r"
    with i have "i = length r - 1" by simp
    with l ne w show False by (simp add: last_conv_nth)
  qed
  have p: "\<not> isWhiteSpace (r ! (i - 1))"
  proof
    assume pw: "isWhiteSpace (r ! (i - 1))"
    from i have "i - 1 < length r" by simp
    from single_spaced_nth[OF ss this pw] i0 i w show False by simp
  qed
  from a i0 il p b show "r ! i = 0x20 \<and> 0 < i \<and> Suc i < length r
        \<and> \<not> isWhiteSpace (r ! (i - 1)) \<and> \<not> isWhiteSpace (r ! Suc i)" by simp
qed

lemma plain_capture:
  "html \<noteq> scriptPage \<Longrightarrow> bodyText (exampleLoad html) = html"
  by (simp add: exampleLoad_def bodyText_def textOf_def js_def)

lemma script_page_body:
  "bodyText (exampleLoad scriptPage) = js ''var x;p{}Hi''"
  "spec_body_text (exampleLoad scriptPage) = js ''Hi''"
  by (simp_all add: exampleLoad_def bodyText_def textOf_def spec_body_text_def js_def)

text \<open>
  C4, as amended. For every HTML capture, \<open>extractText\<close> returns the text content of
  the document body as cheerio's \<open>.text()\<close> gives it, the text inside \<open>script\<close> and
  \<open>style\<close> elements of the body included, with every run of whitespace collapsed to
  a single space and the ends trimmed: the result is the words of that text joined by
  single spaces, and every whitespace character of the result is one U+0020 between
  two non-whitespace characters.
\<close>

theorem extractText_normalises:
  "extractText L html = spec_normalised_text (bodyText (L html))
   \<and> whitespace_normal (extractText L html)
   \<and> textContent (Element (js ''script'') [TextNode t]) = t
   \<and> textContent (Element (js ''style'') [TextNode t]) = t"
proof -
  let ?r = "trim (collapseWhitespace (bodyText (L html)))"
  have ss: "single_spaced ?r"
    by (rule single_spaced_trim) (rule single_spaced_collapse)
  have h: "?r \<noteq> [] \<longrightarrow> \<not> isWhiteSpace (hd ?r)" by (simp add: trim_hd)
  have l: "?r \<noteq> [] \<longrightarrow> \<not> isWhiteSpace (last ?r)" by (simp add: trim_last)
  have "join_spaces (split_words [] ?r) = [] @ ?r"
    using ss l h by (intro join_split) simp_all
  then have "?r = join_spaces (split_words [] (bodyText (L html)))"
    by (simp add: split_words_trim split_words_collapse)
  moreover have "whitespace_normal ?r"
    using ss h l by (rule whitespace_normalI)
  ultimately show ?thesis
    by (simp add: extractText_def spec_normalised_text_def)
qed

theorem extractText_normalises_witness:
  "extractText exampleLoad
     [0x20, 0x9, 0x48, 0x69, 0xA0, 0x2003, 0xA, 0x79, 0x6F, 0x75, 0xD, 0xA]
     = js ''Hi you''
   \<and> whitespace_normal (js ''Hi you'')"
proof -
  let ?c = "[0x20, 0x9, 0x48, 0x69, 0xA0, 0x2003, 0xA, 0x79, 0x6F, 0x75, 0xD, 0xA] :: jsstring"
  have n: "?c \<noteq> scriptPage" by (simp add: scriptPage_def js_def)
  have e: "extractText exampleLoad ?c = js ''Hi you''"
    unfolding extractText_def plain_capture[OF n]
    by (simp add: trim_def js_def isWhiteSpace_def)
  from extractText_normalises[of exampleLoad ?c]
  have "whitespace_normal (extractText exampleLoad ?c)" by blast
  then show ?thesis using e by simp
qed

text \<open>
  C4 as stated fails: on a page whose body holds a script and a style sheet, the
  extract contains their text, where the visible text of the body is \<open>Hi\<close> alone.
\<close>

theorem extractText_script_counterexample:
  "extractText exampleLoad scriptPage = js ''var x;p{}Hi''
   \<and> spec_extractText exampleLoad scriptPage = js ''Hi''
   \<and> extractText exampleLoad scriptPage \<noteq> spec_extractText exampleLoad scriptPage"
proof -
  have a: "extractText exampleLoad scriptPage = js ''var x;p{}Hi''"
    unfolding extractText_def script_page_body
    by (simp add: trim_def js_def isWhiteSpace_def)
  have b: "spec_extractText exampleLoad scriptPage = js ''Hi''"
    unfolding spec_extractText_def script_page_body
    by (simp add: spec_normalised_text_def js_def isWhiteSpace_def)
  show ?thesis unfolding a b by (simp add: js_def)
qed

section \<open>Properties of the SSR percentage\<close>

lemma roundHalfEven_nonneg: "0 \<le> m \<Longrightarrow> 0 \<le> roundHalfEven m"
  by (auto simp: roundHalfEven_def Let_def)

lemma roundHalfEven_le:
  assumes "m \<le> of_int k"
  shows "roundHalfEven m \<le> k"
proof -
  from assms have f: "\<lfloor>m\<rfloor> \<le> k" by (simp add: floor_le_iff) 
  show ?thesis
  proof (cases "m - of_int \<lfloor>m\<rfloor> < 1 / 2")
    case True
    with f show ?thesis by (simp add: roundHalfEven_def Let_def)
  next
    case False
    then have "of_int \<lfloor>m\<rfloor> < m" by simp
    with assms have "(of_int \<lfloor>m\<rfloor> :: rat) < of_int k" by linarith
    then have "\<lfloor>m\<rfloor> + 1 \<le> k" by simp
    with f show ?thesis by (simp add: roundHalfEven_def Let_def)
  qed
qed

lemma binade_le_52:
  assumes "0 < x" and "x < 2 ^ 53"
  shows "binade x \<le> 52"
proof (cases "1 \<le> x")
  case True
  from assms(2) have "\<lfloor>x\<rfloor> < 2 ^ 53" by (simp add: floor_less_iff)
  then have "bitlen \<lfloor>x\<rfloor> \<le> 53" by (simp add: bitlen_le_iff_power)
  with True show ?thesis by (simp add: binade_def)
next
  case False
  then show ?thesis using bitlen_nonneg[of "\<lceil>1 / x\<rceil> - 1"] by (simp add: binade_def)
qed

text \<open>
  The rounding is the one of IEEE arithmetic: \<open>binade\<close> is the exponent of its
  argument, and the rounded value is a multiple of \<open>2^(binade x - 52)\<close> at most half
  of that unit away from \<open>x\<close>.
\<close>

lemma roundHalfEven_error: "\<bar>of_int (roundHalfEven m) - m\<bar> \<le> 1 / 2"
proof -
  have "of_int \<lfloor>m\<rfloor> \<le> m" and "m < of_int \<lfloor>m\<rfloor> + 1" by linarith+
  then show ?thesis by (auto simp: roundHalfEven_def Let_def abs_le_iff)
qed

lemma binade_bounds:
  assumes "0 < x"
  shows "2 powi (binade x) \<le> x \<and> x < 2 powi (binade x + 1)"
proof (cases "1 \<le> x")
  case True
  let ?n = "\<lfloor>x\<rfloor>" and ?k = "bitlen \<lfloor>x\<rfloor>"
  from True have n: "0 < ?n" by simp
  from bitlen_bounds[OF n] have lo: "2 ^ nat (?k - 1) \<le> ?n" and hi: "?n < 2 ^ nat ?k" by simp_all
  from n have k: "1 \<le> ?k" using bitlen_eq_zero_iff[of ?n] bitlen_nonneg[of ?n] by linarith
  have "(2 :: rat) powi (?k - 1) = of_int (2 ^ nat (?k - 1))"
    using k by (simp add: power_int_def)
  also have "\<dots> \<le> of_int ?n" using lo by (simp only: of_int_le_iff)
  also have "\<dots> \<le> x" by simp
  finally have a: "2 powi (?k - 1) \<le> x" .
  from hi have "?n + 1 \<le> 2 ^ nat ?k" by simp
  then have "(of_int (?n + 1) :: rat) \<le> of_int (2 ^ nat ?k)" by (simp only: of_int_le_iff)
  moreover have "x < of_int (?n + 1)" by linarith
  ultimately have "x < of_int (2 ^ nat ?k)" by linarith
  also have "\<dots> = 2 powi ?k" using k by (simp add: power_int_def)
  finally have b: "x < 2 powi ?k" .
  from True a b show ?thesis by (simp add: binade_def)
next
  case False
  let ?y = "1 / x"
  let ?c = "\<lceil>?y\<rceil>"
  let ?k = "bitlen (?c - 1)"
  from False assms have y: "1 < ?y" by simp
  then have c: "0 < ?c - 1" by (simp add: less_ceiling_iff)
  from bitlen_bounds[OF c] have lo: "2 ^ nat (?k - 1) \<le> ?c - 1" and hi: "?c - 1 < 2 ^ nat ?k"
    by simp_all
  from c have k: "1 \<le> ?k" using bitlen_eq_zero_iff[of "?c - 1"] bitlen_nonneg[of "?c - 1"] by linarith
  from hi have "?c \<le> 2 ^ nat ?k" by simp
  then have "(of_int ?c :: rat) \<le> of_int (2 ^ nat ?k)" by (simp only: of_int_le_iff)
  moreover have "?y \<le> of_int ?c" by (rule le_of_int_ceiling)
  ultimately have "?y \<le> of_int (2 ^ nat ?k)" by linarith
  then have "?y \<le> 2 ^ nat ?k" by simp
  then have "1 \<le> x * 2 ^ nat ?k" using assms by (simp add: divide_le_eq mult.commute)
  then have "inverse (2 ^ nat ?k) \<le> x" by (simp add: field_simps)
  then have a: "2 powi (- ?k) \<le> x" using k by (simp add: power_int_def power_one_over inverse_eq_divide)
  have "(of_int (2 ^ nat (?k - 1)) :: rat) \<le> of_int (?c - 1)" using lo by (simp only: of_int_le_iff)
  moreover have "of_int (?c - 1) < ?y" by linarith
  ultimately have "of_int (2 ^ nat (?k - 1)) < ?y" by linarith
  then have "2 ^ nat (?k - 1) < ?y" by simp
  then have "x * 2 ^ nat (?k - 1) < 1" using assms by (simp add: less_divide_eq mult.commute)
  then have "x < inverse (2 ^ nat (?k - 1))" by (simp add: field_simps)
  moreover have "(2 :: rat) powi (- ?k + 1) = inverse (2 ^ nat (?k - 1))"
  proof (cases "?k = 1")
    case True
    then show ?thesis by simp
  next
    case False
    with k have "- ?k + 1 < 0" and "nat (- (- ?k + 1)) = nat (?k - 1)" by simp_all
    then show ?thesis by (simp add: power_int_def power_one_over inverse_eq_divide)
  qed
  ultimately have b: "x < 2 powi (- ?k + 1)" by simp
  from False a b show ?thesis by (simp add: binade_def)
qed

lemma roundPositive_error:
  assumes "0 < x"
  shows "\<bar>roundPositive x - x\<bar> \<le> 2 powi (binade x - 53)"
proof (cases "binade x \<le> 52")
  case True
  let ?s = "nat (52 - binade x)"
  let ?m = "x * 2 ^ ?s"
  have "of_int (roundHalfEven ?m) / 2 ^ ?s - x = (of_int (roundHalfEven ?m) - ?m) / 2 ^ ?s"
    by (simp add: field_simps)
  then have "\<bar>of_int (roundHalfEven ?m) / 2 ^ ?s - x\<bar> = \<bar>of_int (roundHalfEven ?m) - ?m\<bar> / 2 ^ ?s"
    by (simp add: abs_divide)
  also have "\<dots> \<le> (1 / 2) / 2 ^ ?s"
    by (intro divide_right_mono roundHalfEven_error) simp
  also have "\<dots> = inverse (2 ^ Suc ?s)" by (simp add: field_simps)
  also have "\<dots> = 2 powi (binade x - 53)"
  proof -
    from True have "binade x - 53 < 0" and "nat (- (binade x - 53)) = Suc ?s" by simp_all
    then show ?thesis by (simp add: power_int_def power_one_over inverse_eq_divide del: power_Suc)
  qed
  finally show ?thesis using True by (simp add: roundPositive_def)
next
  case False
  let ?s = "nat (binade x - 52)"
  let ?m = "x / 2 ^ ?s"
  from False obtain j where j: "?s = Suc j" by (cases ?s) simp_all
  have "of_int (roundHalfEven ?m) * 2 ^ ?s - x = (of_int (roundHalfEven ?m) - ?m) * 2 ^ ?s"
    by (simp add: field_simps)
  then have "\<bar>of_int (roundHalfEven ?m) * 2 ^ ?s - x\<bar> = \<bar>of_int (roundHalfEven ?m) - ?m\<bar> * 2 ^ ?s"
    by (simp add: abs_mult)
  also have "\<dots> \<le> (1 / 2) * 2 ^ ?s"
    by (intro mult_right_mono roundHalfEven_error) simp
  also have "\<dots> = 2 ^ j" by (simp add: j)
  also have "\<dots> = 2 powi (binade x - 53)"
  proof -
    from False j have "0 \<le> binade x - 53" and "nat (binade x - 53) = j" by linarith+
    then show ?thesis by (simp add: power_int_def)
  qed
  finally show ?thesis using False by (simp add: roundPositive_def)
qed

lemma roundPositive_nonneg: "0 < x \<Longrightarrow> 0 \<le> roundPositive x"
  by (simp add: roundPositive_def roundHalfEven_nonneg)

lemma roundPositive_le_nat:
  assumes "0 < x" and "x \<le> of_nat r" and "r < 2 ^ 53"
  shows "roundPositive x \<le> of_nat r"
proof -
  let ?s = "nat (52 - binade x)"
  from assms(3) have "(of_nat r :: rat) < of_nat (2 ^ 53)" by (simp only: of_nat_less_iff)
  with assms(2) have "x < 2 ^ 53" by simp
  with assms(1) have b: "binade x \<le> 52" by (rule binade_le_52)
  have "x * 2 ^ ?s \<le> of_nat r * 2 ^ ?s" using assms(2) by simp
  also have "(of_nat r * 2 ^ ?s :: rat) = of_int (int r * 2 ^ ?s)" by simp
  finally have "roundHalfEven (x * 2 ^ ?s) \<le> int r * 2 ^ ?s" by (rule roundHalfEven_le)
  then have "(of_int (roundHalfEven (x * 2 ^ ?s)) :: rat) \<le> of_int (int r * 2 ^ ?s)"
    by (simp only: of_int_le_iff)
  then have "(of_int (roundHalfEven (x * 2 ^ ?s)) :: rat) / 2 ^ ?s \<le> of_nat r"
    by (simp add: divide_le_eq)
  with b show ?thesis by (simp add: roundPositive_def)
qed

lemma roundDouble_nonneg: "0 \<le> x \<Longrightarrow> 0 \<le> roundDouble x"
  by (simp add: roundDouble_def roundPositive_nonneg)

lemma roundDouble_le_nat:
  "0 \<le> x \<Longrightarrow> x \<le> of_nat r \<Longrightarrow> r < 2 ^ 53 \<Longrightarrow> roundDouble x \<le> of_nat r"
  by (simp add: roundDouble_def roundPositive_le_nat)

lemma percentage_double_nonneg: "0 \<le> roundDouble (roundDouble (of_nat a / of_nat b) * 100)"
  by (intro roundDouble_nonneg mult_nonneg_nonneg) simp_all

lemma percentage_double_le_100:
  assumes "a \<le> b" and "0 < b"
  shows "roundDouble (roundDouble (of_nat a / of_nat b) * 100) \<le> 100"
proof -
  have q0: "0 \<le> roundDouble (of_nat a / of_nat b)" by (rule roundDouble_nonneg) simp
  have "(of_nat a / of_nat b :: rat) \<le> of_nat 1" using assms by simp
  then have "roundDouble (of_nat a / of_nat b) \<le> of_nat 1"
    by (intro roundDouble_le_nat) simp_all
  then have "roundDouble (of_nat a / of_nat b) * 100 \<le> of_nat 100" by simp
  then have "roundDouble (roundDouble (of_nat a / of_nat b) * 100) \<le> of_nat 100"
    using q0 by (intro roundDouble_le_nat) simp_all
  then show ?thesis by simp
qed

lemma calc_unfold:
  "calculateSSRPercentage L i f =
     (if length (extractText L f) = 0 then SsrNumber (Fin 0)
      else SsrFixed \<lfloor>roundDouble (roundDouble (of_nat (length (extractText L i))
                                                   / of_nat (length (extractText L f))) * 100)
                       * 100 + 1 / 2\<rfloor>)"
  by (simp add: calculateSSRPercentage_def Let_def js_divide_def)

lemma fixed_nonneg: "0 \<le> y \<Longrightarrow> 0 \<le> \<lfloor>y * 100 + 1 / 2 :: rat\<rfloor>"
  by simp

lemma fixed_le: 
  assumes "y \<le> 100" shows "\<lfloor>y * 100 + 1 / 2 :: rat\<rfloor> \<le> 10000"
proof -
  from assms have "y * 100 + 1 / 2 < of_int (10000 + 1)" by simp
  then have "\<lfloor>y * 100 + 1 / 2\<rfloor> < 10000 + 1" by (simp only: floor_less_iff)
  then show ?thesis by simp
qed

lemma double_examples:
  "toFixed2 (js_times100 (js_divide 4 8)) = SsrFixed 5000"
  "toFixed2 (js_times100 (js_divide 19 4)) = SsrFixed 47500"
  "toFixed2 (js_times100 (js_divide 23 160)) = SsrFixed 1437"
  "toFixed2 (js_times100 (js_divide 41 160)) = SsrFixed 2562"
  by code_simp+

lemma plain_examples:
  "js ''Shop'' \<noteq> scriptPage" "js ''Shop now'' \<noteq> scriptPage" "[] \<noteq> scriptPage"
  "js ''Done'' \<noteq> scriptPage" "js ''Loading please wait'' \<noteq> scriptPage"
  by (simp_all add: scriptPage_def js_def)

lemma example_extracts:
  "extractText exampleLoad [] = []"
  "extractText exampleLoad (js ''Shop'') = js ''Shop''"
  "extractText exampleLoad (js ''Shop now'') = js ''Shop now''"
  "extractText exampleLoad (js ''Done'') = js ''Done''"
  "extractText exampleLoad (js ''Loading please wait'') = js ''Loading please wait''"
  unfolding extractText_def
  by (simp_all add: plain_capture plain_examples[symmetric] plain_examples)
     (simp_all add: trim_def js_def isWhiteSpace_def)

lemma example_lengths:
  "length (extractText exampleLoad []) = 0"
  "length (extractText exampleLoad (js ''Shop'')) = 4"
  "length (extractText exampleLoad (js ''Shop now'')) = 8"
  "length (extractText exampleLoad (js ''Done'')) = 4"
  "length (extractText exampleLoad (js ''Loading please wait'')) = 19"
  unfolding example_extracts by (simp_all add: js_def)

lemma example_ssr:
  "calculateSSRPercentage exampleLoad (js ''Shop'') (js ''Shop now'') = SsrFixed 5000"
  by (simp add: calculateSSRPercentage_def Let_def example_lengths
      double_examples del: toFixed2.simps js_times100.simps length_0_conv)

text \<open>
  C1, as amended. When the scripting-enabled extract is empty the result is the number
  0. Otherwise it is the string \<open>toFixed(2)\<close> makes of the double
  \<open>(initialLength / finalLength) * 100\<close>; it is never negative, and it lies in the
  range 0 to 100 whenever the no-scripting extract is not longer than the
  scripting-enabled one. The result is never NaN or undefined.
\<close>

theorem calculateSSRPercentage_value:
  "(length (extractText L final) = 0 \<longrightarrow>
      calculateSSRPercentage L initial final = SsrNumber (Fin 0))
   \<and> (0 < length (extractText L final) \<longrightarrow>
      (\<exists>n. calculateSSRPercentage L initial final = SsrFixed n \<and> 0 \<le> n
         \<and> SsrFixed n = toFixed2 (js_times100 (js_divide (length (extractText L initial))
                                                          (length (extractText L final))))))
   \<and> (0 < length (extractText L final)
        \<and> length (extractText L initial) \<le> length (extractText L final) \<longrightarrow>
      in_percent_range (calculateSSRPercentage L initial final))
   \<and> \<not> is_nan_or_undefined (calculateSSRPercentage L initial final)"
proof -
  let ?a = "length (extractText L initial)" and ?b = "length (extractText L final)"
  let ?y = "roundDouble (roundDouble (of_nat ?a / of_nat ?b) * 100)"
  have n0: "0 \<le> \<lfloor>?y * 100 + 1 / 2\<rfloor>"
    by (rule fixed_nonneg) (rule percentage_double_nonneg)
  have up: "?a \<le> ?b \<Longrightarrow> 0 < ?b \<Longrightarrow> \<lfloor>?y * 100 + 1 / 2\<rfloor> \<le> 10000"
    by (rule fixed_le) (rule percentage_double_le_100)
  show ?thesis
    using n0 up
    by (auto simp: calc_unfold js_divide_def in_percent_range_def is_nan_or_undefined_def)
qed

theorem calculateSSRPercentage_value_witness:
  "calculateSSRPercentage exampleLoad (js ''Shop now'') [] = SsrNumber (Fin 0)
   \<and> calculateSSRPercentage exampleLoad (js ''Shop'') (js ''Shop now'') = SsrFixed 5000
   \<and> in_percent_range (calculateSSRPercentage exampleLoad (js ''Shop'') (js ''Shop now''))"
proof -
  have la: "length (extractText exampleLoad []) = 0"
    and lb: "length (extractText exampleLoad (js ''Shop'')) = 4"
    and lc: "length (extractText exampleLoad (js ''Shop now'')) = 8"
    by (simp_all add: example_lengths)
  from calculateSSRPercentage_value[of exampleLoad "[]" "js ''Shop now''"] la
  have "calculateSSRPercentage exampleLoad (js ''Shop now'') [] = SsrNumber (Fin 0)"
    by simp
  moreover from calculateSSRPercentage_value[of exampleLoad "js ''Shop now''" "js ''Shop''"] lb lc
  have "calculateSSRPercentage exampleLoad (js ''Shop'') (js ''Shop now'') = SsrFixed 5000
        \<and> in_percent_range (calculateSSRPercentage exampleLoad (js ''Shop'') (js ''Shop now''))"
    by (simp add: double_examples in_percent_range_def del: toFixed2.simps js_times100.simps)
  ultimately show ?thesis by blast
qed

text \<open>
  C1 as stated fails: a no-scripting capture with a longer text than the
  scripting-enabled one (a placeholder that scripts replace) gives 475.00.
\<close>

theorem calculateSSRPercentage_counterexample:
  "0 < length (extractText exampleLoad (js ''Done''))
   \<and> calculateSSRPercentage exampleLoad (js ''Loading please wait'') (js ''Done'') = SsrFixed 47500
   \<and> \<not> in_percent_range
         (calculateSSRPercentage exampleLoad (js ''Loading please wait'') (js ''Done''))"
proof -
  have v: "calculateSSRPercentage exampleLoad (js ''Loading please wait'') (js ''Done'')
           = SsrFixed 47500"
    by (simp add: calculateSSRPercentage_def Let_def example_lengths
        double_examples del: toFixed2.simps js_times100.simps length_0_conv)
  show ?thesis unfolding v by (simp add: example_lengths in_percent_range_def)
qed

section \<open>Properties of link discovery\<close>

lemma sitemap_paths_distinct:
  "js ''sitemap'' \<noteq> js ''sitemap.xml''" "js ''site-map'' \<noteq> js ''sitemap.xml''"
  by (simp_all add: js_def)

lemma xmlLinks_Some: "xmlLinks (Urlset (Some (map Some links))) = Inr links"
  by (simp add: list_all_iff comp_def)

text \<open>
  C6. When the fetch of \<open>/sitemap.xml\<close> succeeds and the document parses to a URL set
  with at least one entry, each with its location, \<open>fetchSitemap\<close> returns exactly
  those locations, and the only step it takes is that fetch: neither \<open>/sitemap\<close> nor
  \<open>/site-map\<close> is tried and the homepage is not rendered.
\<close>

theorem fetchSitemap_xml_first:
  assumes "httpGet w (length tr) (withoutTrailingSlash url) (js ''sitemap.xml'') = Inr data"
    and "parseXml w data = Inr (Urlset (Some (map Some links)))"
    and "links \<noteq> []"
  shows "fetchSitemap w url tr
         = (Inr links, tr @ [Fetch (withoutTrailingSlash url) (js ''sitemap.xml'')])"
  using assms by (simp add: fetchSitemap_def sitemapPaths_def xmlLinks_Some del: xmlLinks.simps)

theorem fetchSitemap_xml_first_witness:
  "fetchSitemap (exampleWorld True (Urlset (Some (map Some [pageA, pageB, pageC]))) [] []) (js ''https://a.test/'') []
   = (Inr [pageA, pageB, pageC], [Fetch (js ''https://a.test'') (js ''sitemap.xml'')])
   \<and> withoutTrailingSlash (js ''https://a.test/'') = js ''https://a.test''"
proof -
  have b: "withoutTrailingSlash (js ''https://a.test/'') = js ''https://a.test''"
    by (simp add: withoutTrailingSlash_def js_def)
  have "fetchSitemap (exampleWorld True (Urlset (Some (map Some [pageA, pageB, pageC]))) [] []) (js ''https://a.test/'') []
   = (Inr [pageA, pageB, pageC], [] @ [Fetch (withoutTrailingSlash (js ''https://a.test/'')) (js ''sitemap.xml'')])"
    by (rule fetchSitemap_xml_first[where data = "js ''<urlset/>''"])
       (simp_all add: exampleWorld_def)
  then show ?thesis using b by simp
qed

text \<open>
  The de-duplication of the HTML sitemap paths and of the rendered homepage keeps one
  copy of every link.
\<close>

lemma indexOf_SomeD: "indexOf xs v = Some i \<Longrightarrow> i < length xs \<and> xs ! i = v"
  by (induction xs arbitrary: i) (auto split: if_splits)

lemma indexOf_member: "v \<in> set xs \<Longrightarrow> \<exists>i. indexOf xs v = Some i"
  by (induction xs) auto

lemma dedupe_distinct: "distinct (dedupe xs)"
proof -
  let ?ps = "filter (\<lambda>(v, i). indexOf xs v = Some i) (zip xs [0 ..< length xs])"
  have "distinct (zip xs [0 ..< length xs])"
    by (rule distinct_zipI2) (rule distinct_upt)
  then have d: "distinct ?ps" by (rule distinct_filter)
  have "inj_on fst (set ?ps)"
  proof (rule inj_onI)
    fix p q assume p: "p \<in> set ?ps" and q: "q \<in> set ?ps" and e: "fst p = fst q"
    from p have "indexOf xs (fst p) = Some (snd p)" by (simp add: case_prod_beta)
    moreover from q have "indexOf xs (fst q) = Some (snd q)" by (simp add: case_prod_beta)
    ultimately have "snd p = snd q" using e by simp
    with e show "p = q" by (simp add: prod_eq_iff)
  qed
  with d have "distinct (map fst ?ps)" by (simp only: distinct_map simp_thms)
  then show ?thesis unfolding dedupe_def .
qed

lemma set_dedupe: "set (dedupe xs) = set xs"
proof
  show "set (dedupe xs) \<subseteq> set xs"
  proof
    fix v assume "v \<in> set (dedupe xs)"
    then obtain i where "(v, i) \<in> set (zip xs [0 ..< length xs])"
      unfolding dedupe_def by auto
    then show "v \<in> set xs" by (rule set_zip_leftD)
  qed
next
  show "set xs \<subseteq> set (dedupe xs)"
  proof
    fix v assume "v \<in> set xs"
    then obtain i where i: "indexOf xs v = Some i" using indexOf_member by fastforce
    then have l: "i < length xs" and n: "xs ! i = v" using indexOf_SomeD by fastforce+
    have "(xs ! i, [0 ..< length xs] ! i) \<in> set (zip xs [0 ..< length xs])"
      using l by (intro nth_zip[THEN subst, of _ _ _ "\<lambda>p. p \<in> set (zip xs [0 ..< length xs])"] nth_mem) simp_all
    with l n have "(v, i) \<in> set (zip xs [0 ..< length xs])" by simp
    with i have "(v, i) \<in> set (filter (\<lambda>(v, i). indexOf xs v = Some i) (zip xs [0 ..< length xs]))"
      by simp
    then have "fst (v, i) \<in> fst ` set (filter (\<lambda>(v, i). indexOf xs v = Some i) (zip xs [0 ..< length xs]))"
      by (rule imageI)
    then show "v \<in> set (dedupe xs)"
      unfolding dedupe_def by simp
  qed
qed

lemma scrapeInternalLinks_distinct:
  "scrapeInternalLinks w url tr = (Inr links, tr') \<Longrightarrow> distinct links"
  by (auto simp: scrapeInternalLinks_def dedupe_distinct split: sum.splits)

section \<open>Properties of page selection\<close>

lemma relevant_examples:
  "\<not> isSEORelevantPage pageA" "isSEORelevantPage pageB"
  "\<not> isSEORelevantPage pageC" "isSEORelevantPage pageD"
  by (simp_all add: isSEORelevantPage_def seoKeywords_def pageA_def pageB_def pageC_def pageD_def
        js_def asciiLower_def)

text \<open>
  C10. On the empty candidate list \<open>selectPages\<close> does not fail: it returns one slot
  holding \<open>undefined\<close>. Destructured and run through the loop of the orchestrator, that
  selection analyzes no page: no row, no lowest page, no step logged.
\<close>

theorem selectPages_empty:
  "selectPages [] = [None]
   \<and> analyzeSelected w base [] tr = (Inr ([], None), tr)"
  by (simp add: selectPages_def analyzeSelected_def index_def slot_def)

theorem selectPages_empty_witness:
  "selectPages [] = [None]
   \<and> analyzeSelected (exampleWorld True NoUrlset [] []) site [] [Detect site]
      = (Inr ([], None), [Detect site])"
  using selectPages_empty[of "exampleWorld True NoUrlset [] []" site "[Detect site]"] by simp

text \<open>
  C9. Whenever the candidate list has at least three URLs of which exactly two are
  SEO-relevant, the mid page and the deep page are the same URL, the second relevant
  one: the middle of a two-element list is its last element. The loop of the
  orchestrator then runs on that URL twice, as Mid and as Deep. Such lists exist.
\<close>

theorem selectPages_two_relevant:
  assumes "3 \<le> length urls" and "length (filter isSEORelevantPage urls) = 2"
  shows "selectPages urls = [Some (urls ! 0), Some (filter isSEORelevantPage urls ! 1),
                             Some (filter isSEORelevantPage urls ! 1)]
         \<and> analyzeSelected w base urls tr
           = analyzePages w base
               [(Some (urls ! 0), js ''Homepage''),
                (Some (filter isSEORelevantPage urls ! 1), js ''Mid''),
                (Some (filter isSEORelevantPage urls ! 1), js ''Deep'')] [] None tr"
proof -
  have s: "selectPages urls = [Some (urls ! 0), Some (filter isSEORelevantPage urls ! 1),
                             Some (filter isSEORelevantPage urls ! 1)]"
  proof -
    from assms(2) have "filter isSEORelevantPage urls \<noteq> []" by auto
    moreover from assms(1) have "urls \<noteq> []" by auto
    ultimately show ?thesis
      using assms by (simp add: selectPages_def index_def Let_def)
  qed
  show ?thesis unfolding analyzeSelected_def s
    by (simp add: slot_def index_def Let_def del: analyzePages.simps)
qed

section \<open>Properties of the orchestrator\<close>

text \<open>
  C7. When the detection probe answers false, \<open>analyzeWebsite\<close> writes exactly one
  row, with SSR Percentage "N/A" and Page Depth "N/A", and the run consists of the
  detection and that write: no fetch, no scrape, no page analysis.
\<close>

theorem analyzeWebsite_not_react:
  assumes "detect w (length tr) url = Inr False"
  shows "analyzeWebsite w url tr
         = tr @ [Detect url,
                 WriteRecords [\<lparr>baseUrl = url, analyzedUrl = url, isReact = False,
                                 ssrPercentage = Text (js ''N/A''), depth = js ''N/A''\<rparr>]]"
  using assms by (simp add: analyzeWebsite_def analyzeWebsiteTry_def notApplicableRow_def)

theorem analyzeWebsite_not_react_witness:
  "analyzeWebsite (exampleWorld False NoUrlset [] []) site []
   = [Detect site,
      WriteRecords [\<lparr>baseUrl = site, analyzedUrl = site, isReact = False,
                      ssrPercentage = Text (js ''N/A''), depth = js ''N/A''\<rparr>]]"
  using analyzeWebsite_not_react[of "exampleWorld False NoUrlset [] []" "[]" site]
  by (simp add: exampleWorld_def)

subsection \<open>What a run writes\<close>

lemma written_append: "written (xs @ ys) = written xs @ written ys"
  by (induction xs rule: written.induct) simp_all

lemma scrapeInternalLinks_written:
  "scrapeInternalLinks w url tr = (r, tr') \<Longrightarrow> written tr' = written tr"
  by (auto simp: scrapeInternalLinks_def written_append split: sum.splits)

lemma trySitemapPaths_step:
  "trySitemapPaths w url base (path # paths) tr = (r, tr')
   \<Longrightarrow> trySitemapPaths w url base paths (tr @ [Fetch base path]) = (r, tr')
       \<or> tr' = tr @ [Fetch base path]"
  by (auto split: sum.splits if_splits)

lemma trySitemapPaths_written:
  "trySitemapPaths w url base paths tr = (r, tr') \<Longrightarrow> written tr' = written tr"
proof (induction paths arbitrary: tr)
  case Nil
  then show ?case by simp
next
  case (Cons path paths)
  have step: "written (tr @ [Fetch base path]) = written tr"
    by (simp add: written_append)
  from trySitemapPaths_step[OF Cons.prems] show ?case
  proof
    assume "trySitemapPaths w url base paths (tr @ [Fetch base path]) = (r, tr')"
    from Cons.IH[OF this] step show ?thesis by simp
  next
    assume "tr' = tr @ [Fetch base path]"
    with step show ?thesis by simp
  qed
qed

lemma fetchSitemap_written:
  assumes "fetchSitemap w url tr = (r, tr')"
  shows "written tr' = written tr"
proof -
  obtain r0 tr0 where t: "trySitemapPaths w url (withoutTrailingSlash url) sitemapPaths tr = (r0, tr0)"
    by (cases "trySitemapPaths w url (withoutTrailingSlash url) sitemapPaths tr")
  have w0: "written tr0 = written tr" by (rule trySitemapPaths_written[OF t])
  show ?thesis
  proof (cases r0)
    case None
    with assms t have "scrapeInternalLinks w url tr0 = (r, tr')"
      by (simp add: fetchSitemap_def)
    from scrapeInternalLinks_written[OF this] w0 show ?thesis by simp
  next
    case (Some links)
    with assms t have "tr' = tr0" by (simp add: fetchSitemap_def)
    with w0 show ?thesis by simp
  qed
qed

lemma analyzeSSR_written:
  "analyzeSSR w url tr = (r, tr') \<Longrightarrow> written tr' = written tr"
  by (auto simp: analyzeSSR_def written_append split: sum.splits)

lemma analyzePages_written:
  "analyzePages w base pages results low tr = (r, tr') \<Longrightarrow> written tr' = written tr"
proof (induction pages arbitrary: results low tr)
  case Nil
  then show ?case by simp
next
  case (Cons p pages)
  obtain pageUrl depthLabel where p: "p = (pageUrl, depthLabel)" by (cases p)
  from Cons.prems show ?case unfolding p
    by (auto split: if_splits prod.splits sum.splits
        dest!: Cons.IH dest: analyzeSSR_written)
qed

lemma analyzePages_lowest:
  "analyzePages w base pages results low tr = (Inr (results', low'), tr')
   \<Longrightarrow> (results = [] \<longleftrightarrow> low = None)
   \<Longrightarrow> (results' = [] \<longleftrightarrow> low' = None)"
proof (induction pages arbitrary: results low tr)
  case Nil
  then show ?case by simp
next
  case (Cons p pages)
  obtain pageUrl depthLabel where p: "p = (pageUrl, depthLabel)" by (cases p)
  show ?case
  proof (cases "truthy pageUrl")
    case False
    with Cons.prems Cons.IH[of results low tr] show ?thesis unfolding p by simp
  next
    case True
    obtain r tr1 where a: "analyzeSSR w (the pageUrl) tr = (r, tr1)" by (cases "analyzeSSR w (the pageUrl) tr")
    show ?thesis
    proof (cases r)
      case (Inl e)
      with Cons.prems True a show ?thesis unfolding p by simp
    next
      case (Inr cs)
      obtain c ssr where cs: "cs = (c, ssr)" by (cases cs)
      let ?results = "results @ [\<lparr>baseUrl = base, analyzedUrl = the pageUrl, isReact = True,
                             ssrPercentage = Value ssr, depth = depthLabel\<rparr>]"
      let ?low = "if isLower ssr low then Some (the pageUrl, c, ssr) else low"
      from Cons.prems(1) True a Inr cs
      have run: "analyzePages w base pages ?results ?low tr1 = (Inr (results', low'), tr')"
        unfolding p by simp
      have "?results = [] \<longleftrightarrow> ?low = None"
        by (cases low) (auto simp: isLower_def)
      with Cons.IH[OF run] show ?thesis by blast
    qed
  qed
qed

lemma analyzeSelected_written:
  "analyzeSelected w base links tr = (r, tr') \<Longrightarrow> written tr' = written tr"
  unfolding analyzeSelected_def Let_def by (rule analyzePages_written)

lemma analyzeSelected_lowest:
  "analyzeSelected w base links tr = (Inr (results, low), tr')
   \<Longrightarrow> (results = [] \<longleftrightarrow> low = None)"
  unfolding analyzeSelected_def Let_def by (erule analyzePages_lowest) simp

lemma collectResults_cases:
  assumes "collectResults w base tr = (r, tr')"
  shows "tr' = tr
    \<or> (\<exists>h x tr1. fetchSitemap w h tr = (x, tr1)
         \<and> (tr' = tr1
            \<or> (\<exists>links. analyzeSelected w base links tr1 = (r, tr'))
            \<or> (\<exists>y tr2. scrapeInternalLinks w h tr1 = (y, tr2)
                 \<and> (tr' = tr2 \<or> (\<exists>links. analyzeSelected w base links tr2 = (r, tr'))))))"
proof (cases "homepageOf w base")
  case (Inl e)
  with assms show ?thesis by (simp add: collectResults_def)
next
  case (Inr h)
  obtain x tr1 where f: "fetchSitemap w h tr = (x, tr1)" by (cases "fetchSitemap w h tr")
  obtain y tr2 where g: "scrapeInternalLinks w h tr1 = (y, tr2)"
    by (cases "scrapeInternalLinks w h tr1")
  have "tr' = tr1
        \<or> (\<exists>links. analyzeSelected w base links tr1 = (r, tr'))
        \<or> (tr' = tr2 \<or> (\<exists>links. analyzeSelected w base links tr2 = (r, tr')))"
    using assms Inr f g
    by (auto simp: collectResults_def split: sum.splits if_splits)
  with f g show ?thesis by blast
qed

lemma collectResults_written:
  assumes "collectResults w base tr = (r, tr')"
  shows "written tr' = written tr"
  using collectResults_cases[OF assms]
  by (auto dest!: fetchSitemap_written scrapeInternalLinks_written analyzeSelected_written)

lemma collectResults_lowest:
  "collectResults w base tr = (Inr (results, low), tr')
   \<Longrightarrow> (results = [] \<longleftrightarrow> low = None)"
  unfolding collectResults_def
  by (auto split: sum.splits prod.splits if_splits dest: analyzeSelected_lowest)

lemma collectResults_no_links:
  assumes "homepageOf w url = Inr h"
    and "fetchSitemap w h tr = (Inr links, tr1)"
    and "length links \<le> 2"
    and "renderedAnchors w (length tr1) h = Inr []"
  shows "collectResults w url tr = (Inr ([], None), tr1 @ [Scrape h])"
  using assms by (simp add: collectResults_def scrapeInternalLinks_def dedupe_def)

lemma analyzeWebsite_rows_aux:
  "written (analyzeWebsite w url tr) = written tr @ site_rows w url tr
   \<and> (site_rows w url tr = [] \<longleftrightarrow>
        detect w (length tr) url = Inr True
        \<and> (\<exists>tr'. collectResults w url (tr @ [Detect url]) = (Inr ([], None), tr')))"
proof (cases "detect w (length tr) url")
  case (Inl e)
  then have "written (analyzeWebsite w url tr) = written tr @ [errorRow url]"
    by (simp add: analyzeWebsite_def analyzeWebsiteTry_def written_append)
  with Inl show ?thesis by (simp add: site_rows_def)
next
  case (Inr react)
  show ?thesis
  proof (cases react)
    case False
    with Inr have "written (analyzeWebsite w url tr) = written tr @ [notApplicableRow url]"
      by (simp add: analyzeWebsite_def analyzeWebsiteTry_def written_append)
    with Inr False show ?thesis by (simp add: site_rows_def)
  next
    case True
    obtain r tr1 where c: "collectResults w url (tr @ [Detect url]) = (r, tr1)"
      by (cases "collectResults w url (tr @ [Detect url])")
    have w1: "written tr1 = written tr"
      using collectResults_written[OF c] by (simp add: written_append)
    show ?thesis
    proof (cases r)
      case (Inl e)
      with Inr True c w1 have "written (analyzeWebsite w url tr) = written tr @ [errorRow url]"
        by (simp add: analyzeWebsite_def analyzeWebsiteTry_def written_append)
      with Inr True c Inl show ?thesis by (simp add: site_rows_def)
    next
      case (Inr rl)
      obtain results low where rl: "rl = (results, low)" by (cases rl)
      have inv: "results = [] \<longleftrightarrow> low = None"
        using collectResults_lowest[of w url "tr @ [Detect url]" results low tr1] c Inr rl by simp
      show ?thesis
      proof (cases low)
        case None
        with inv have "results = []" by simp
        with \<open>detect w (length tr) url = Inr react\<close> True c Inr rl None w1
        have "written (analyzeWebsite w url tr) = written tr @ []"
          by (simp add: analyzeWebsite_def analyzeWebsiteTry_def written_append)
        with \<open>detect w (length tr) url = Inr react\<close> True c Inr rl None \<open>results = []\<close>
        show ?thesis by (simp add: site_rows_def)
      next
        case (Some l)
        obtain u cap ssr where l: "l = (u, cap, ssr)" by (cases l)
        from inv Some have ne: "results \<noteq> []" by simp
        have "\<exists>extra. written (analyzeWebsite w url tr) = written tr @ results @ extra"
          using \<open>detect w (length tr) url = Inr react\<close> True c Inr rl Some l w1
          by (cases "emailReport w (Suc (length tr1)) u cap")
             (simp_all add: analyzeWebsite_def analyzeWebsiteTry_def written_append)
        then obtain extra where "written (analyzeWebsite w url tr) = written tr @ results @ extra"
          by blast
        with ne \<open>detect w (length tr) url = Inr react\<close> True c Inr rl Some
        show ?thesis by (simp add: site_rows_def)
      qed
    qed
  qed
qed

subsection \<open>Runs of the example sites\<close>

lemma example_fields:
  "detect (exampleWorld react doc anchors broken) t u = Inr react"
  "homepageOf (exampleWorld react doc anchors broken) u = Inr u"
  "httpGet (exampleWorld react doc anchors broken) t base (js ''sitemap.xml'') = Inr (js ''<urlset/>'')"
  "httpGet (exampleWorld react doc anchors broken) t base (js ''sitemap'') = Inl NetworkError"
  "httpGet (exampleWorld react doc anchors broken) t base (js ''site-map'') = Inl NetworkError"
  "parseXml (exampleWorld react doc anchors broken) data = Inr doc"
  "renderedAnchors (exampleWorld react doc anchors broken) t u = Inr anchors"
  "cheerioLoad (exampleWorld react doc anchors broken) = exampleLoad"
  "emailReport (exampleWorld react doc anchors broken) t u c = Inr ()"
  by (simp_all add: exampleWorld_def sitemap_paths_distinct)

lemma example_render:
  "render (exampleWorld react doc anchors broken) t u =
     (if u \<in> set broken then Inl RenderError
      else Inr \<lparr>initialHtml = js ''Shop'', finalHtml = js ''Shop now'', pageTitle = js ''Shop''\<rparr>)"
  by (simp add: exampleWorld_def)

lemma site_base: "withoutTrailingSlash site = site"
  by (simp add: withoutTrailingSlash_def site_def js_def)

lemma pages_distinct: "distinct [pageA, pageB, pageC, pageD]"
  by (simp add: pageA_def pageB_def pageC_def pageD_def js_def)

lemma pages_nonempty: "pageA \<noteq> []" "pageB \<noteq> []" "pageC \<noteq> []" "pageD \<noteq> []"
  by (simp_all add: pageA_def pageB_def pageC_def pageD_def js_def)

lemma example_analyzeSSR:
  "analyzeSSR (exampleWorld react doc anchors broken) u tr =
     (if u \<in> set broken then (Inl RenderError, tr @ [Analyze u])
      else (Inr (\<lparr>initialHtml = js ''Shop'', finalHtml = js ''Shop now'', pageTitle = js ''Shop''\<rparr>,
                 SsrFixed 5000), tr @ [Analyze u]))"
  by (simp add: analyzeSSR_def example_render example_fields example_ssr)

lemma example_fetch_xml:
  "list_all (\<lambda>u. u \<noteq> None) entries \<Longrightarrow>
   fetchSitemap (exampleWorld react (Urlset (Some entries)) anchors broken) site tr
   = (Inr (map the entries), tr @ [Fetch site (js ''sitemap.xml'')])"
  by (simp add: fetchSitemap_def sitemapPaths_def example_fields site_base)

lemma example_fetch_none:
  "fetchSitemap (exampleWorld react NoUrlset anchors broken) site tr
   = (Inr (dedupe anchors),
      tr @ [Fetch site (js ''sitemap.xml''), Fetch site (js ''sitemap''),
            Fetch site (js ''site-map''), Scrape site])"
  by (simp add: fetchSitemap_def sitemapPaths_def example_fields site_base
      sitemap_paths_distinct scrapeInternalLinks_def)

lemma example_select3: "selectPages [pageA, pageB, pageC] = [Some pageA, Some pageB, Some pageC]"
  by (simp add: selectPages_def index_def relevant_examples)

lemma example_select4:
  "selectPages [pageA, pageB, pageC, pageD] = [Some pageA, Some pageD, Some pageD]"
  by (simp add: selectPages_def index_def relevant_examples)

lemmas example_run =
  analyzeWebsite_def analyzeWebsiteTry_def collectResults_def analyzeSelected_def
  scrapeInternalLinks_def slot_def index_def isLower_def
  example_fields example_analyzeSSR example_fetch_xml example_fetch_none
  pages_nonempty

subsection \<open>Errors and empty discoveries\<close>

text \<open>
  C2, as amended. When an error is thrown between the start of discovery and the end
  of the page loop (lines 286-346), also after one or more pages were analyzed and
  their rows collected, those rows are not written: the only row the site adds to the
  report is the Error row of the catch block.
\<close>

theorem analyzeWebsite_error_discards_rows:
  assumes "detect w (length tr) url = Inr True"
    and "collectResults w url (tr @ [Detect url]) = (Inl e, tr')"
  shows "written (analyzeWebsite w url tr) = written tr @ [errorRow url]"
proof -
  from assms(2) have "written tr' = written (tr @ [Detect url])"
    by (rule collectResults_written)
  then have "written tr' = written tr" by (simp add: written_append)
  with assms show ?thesis
    by (simp add: analyzeWebsite_def analyzeWebsiteTry_def written_append)
qed

theorem analyzeWebsite_error_discards_rows_witness:
  "written (analyzeWebsite
      (exampleWorld True (Urlset (Some [Some pageA, Some pageB, Some pageC])) [] [pageC]) site [])
   = [errorRow site]
   \<and> collectResults
       (exampleWorld True (Urlset (Some [Some pageA, Some pageB, Some pageC])) [] [pageC]) site
       [Detect site]
     = (Inl RenderError,
        [Detect site, Fetch site (js ''sitemap.xml''), Analyze pageA, Analyze pageB,
         Analyze pageC])"
proof -
  let ?w = "exampleWorld True (Urlset (Some [Some pageA, Some pageB, Some pageC])) [] [pageC]"
  have d: "detect ?w (length ([] :: event list)) site = Inr True"
    by (simp add: example_fields)
  have c: "collectResults ?w site ([] @ [Detect site])
     = (Inl RenderError,
        [Detect site, Fetch site (js ''sitemap.xml''), Analyze pageA, Analyze pageB,
         Analyze pageC])"
    using pages_distinct by (simp add: example_run example_select3)
  from analyzeWebsite_error_discards_rows[OF d c] c show ?thesis by simp
qed

text \<open>
  C2 as stated fails: the homepage is analyzed and its row collected, the mid page
  fails to render, and the run writes the Error row alone.
\<close>

theorem analyzeWebsite_partial_failure_counterexample:
  "analyzeWebsite (exampleWorld True (Urlset (Some [Some pageA, Some pageB, Some pageC])) [] [pageB])
     site []
   = [Detect site, Fetch site (js ''sitemap.xml''), Analyze pageA, Analyze pageB,
      WriteRecords [errorRow site]]"
  using pages_distinct by (simp add: example_run example_select3)

text \<open>
  C3, as amended. The rows a site adds to the report are at least one (the rows of the
  analyzed pages, the N/A row, or the Error row) unless the framework is detected and
  discovery and the page loop end without an error and without an analyzed page; then
  the site adds no row. That is the case whenever discovery returns at most two links
  and the rendered homepage shows no link.
\<close>

theorem analyzeWebsite_rows:
  "written (analyzeWebsite w url tr) = written tr @ site_rows w url tr
   \<and> (site_rows w url tr = [] \<longleftrightarrow>
        detect w (length tr) url = Inr True
        \<and> (\<exists>tr'. collectResults w url (tr @ [Detect url]) = (Inr ([], None), tr')))
   \<and> (detect w (length tr) url = Inr True \<and> homepageOf w url = Inr h
        \<and> fetchSitemap w h (tr @ [Detect url]) = (Inr links, tr1) \<and> length links \<le> 2
        \<and> renderedAnchors w (length tr1) h = Inr []
       \<longrightarrow> site_rows w url tr = [])"
  using analyzeWebsite_rows_aux[of w url tr]
    collectResults_no_links[of w url h "tr @ [Detect url]" links tr1]
  by auto

theorem analyzeWebsite_rows_witness:
  "site_rows (exampleWorld True NoUrlset [] []) site [] = []
   \<and> map analyzedUrl
        (site_rows (exampleWorld True (Urlset (Some [Some pageA, Some pageB, Some pageC])) [] [])
           site [])
      = [pageA, pageB, pageC]"
proof -
  let ?w = "exampleWorld True NoUrlset [] []"
  let ?v = "exampleWorld True (Urlset (Some [Some pageA, Some pageB, Some pageC])) [] []"
  have "detect ?w (length ([] :: event list)) site = Inr True \<and> homepageOf ?w site = Inr site
        \<and> fetchSitemap ?w site ([] @ [Detect site])
            = (Inr [], [Detect site, Fetch site (js ''sitemap.xml''), Fetch site (js ''sitemap''),
                        Fetch site (js ''site-map''), Scrape site])
        \<and> length ([] :: jsstring list) \<le> 2
        \<and> renderedAnchors ?w
             (length [Detect site, Fetch site (js ''sitemap.xml''), Fetch site (js ''sitemap''),
                      Fetch site (js ''site-map''), Scrape site]) site = Inr []"
    by (simp add: example_fields example_fetch_none dedupe_def)
  with analyzeWebsite_rows[of ?w site "[]" site "[]"
      "[Detect site, Fetch site (js ''sitemap.xml''), Fetch site (js ''sitemap''),
        Fetch site (js ''site-map''), Scrape site]"]
  have a: "site_rows ?w site [] = []" by blast
  have "written (analyzeWebsite ?v site []) = written [] @ site_rows ?v site []"
    using analyzeWebsite_rows[of ?v site "[]"] by blast
  then have "site_rows ?v site [] = written (analyzeWebsite ?v site [])" by simp
  then have b: "map analyzedUrl (site_rows ?v site []) = [pageA, pageB, pageC]"
    by (simp add: example_run example_select3)
  from a b show ?thesis by simp
qed

text \<open>
  C3 as stated fails: the framework is detected, no sitemap path yields links and the
  rendered homepage shows none; the run ends without writing a row.
\<close>

theorem analyzeWebsite_no_links_counterexample:
  "analyzeWebsite (exampleWorld True NoUrlset [] []) site []
   = [Detect site, Fetch site (js ''sitemap.xml''), Fetch site (js ''sitemap''),
      Fetch site (js ''site-map''), Scrape site, Scrape site, WriteRecords []]
   \<and> written (analyzeWebsite (exampleWorld True NoUrlset [] []) site []) = []"
  by (simp add: example_run dedupe_def)

text \<open>
  C5, on the XML path. A \<open>sitemap.xml\<close> that lists one URL twice is returned as it
  is, with the duplicate: line 51 maps the entries and applies no filter, unlike lines
  59 and 80.
\<close>

theorem fetchSitemap_xml_duplicates:
  "fetchSitemap (exampleWorld True (Urlset (Some [Some pageB, Some pageB, Some pageC])) [] [])
     site []
   = (Inr [pageB, pageB, pageC], [Fetch site (js ''sitemap.xml'')])
   \<and> \<not> distinct [pageB, pageB, pageC]"
  by (simp add: example_fetch_xml)

theorem selectPages_two_relevant_witness:
  "selectPages [pageA, pageB, pageC, pageD] = [Some pageA, Some pageD, Some pageD]
   \<and> map (\<lambda>r. (analyzedUrl r, depth r))
       (written (analyzeWebsite
          (exampleWorld True (Urlset (Some [Some pageA, Some pageB, Some pageC, Some pageD])) [] [])
          site []))
     = [(pageA, js ''Homepage''), (pageD, js ''Mid''), (pageD, js ''Deep'')]"
proof -
  have f: "filter isSEORelevantPage [pageA, pageB, pageC, pageD] = [pageB, pageD]"
    by (simp add: relevant_examples)
  have "selectPages [pageA, pageB, pageC, pageD] = [Some pageA, Some pageD, Some pageD]"
    using selectPages_two_relevant[of "[pageA, pageB, pageC, pageD]"] f by simp
  moreover have "map (\<lambda>r. (analyzedUrl r, depth r))
       (written (analyzeWebsite
          (exampleWorld True (Urlset (Some [Some pageA, Some pageB, Some pageC, Some pageD])) [] [])
          site []))
     = [(pageA, js ''Homepage''), (pageD, js ''Mid''), (pageD, js ''Deep'')]"
    by (simp add: example_run example_select4)
  ultimately show ?thesis by simp
qed

section \<open>Properties of the word diff\<close>

lemma green_grey: "js ''#4CAF50'' \<noteq> js ''#808080''"
  by (simp add: js_def)

lemma user_count_positive:
  "greaterThanZero (orZero (getProperty m w)) \<longleftrightarrow> 0 < frequency m w"
  by (simp add: getProperty_def frequency_def split: option.splits jsval.splits)

lemma user_count_value:
  "greaterThanZero (orZero (getProperty m w)) \<Longrightarrow> orZero (getProperty m w) = Number (frequency m w)"
  by (auto simp: getProperty_def frequency_def split: option.splits jsval.splits)

lemma distinct_newSet: "distinct (newSet xs)"
  by (simp add: newSet_def)

lemma set_newSet: "set (newSet xs) = set xs"
  by (simp add: newSet_def)

lemma frequency_positive_key: "0 < frequency m w \<Longrightarrow> w \<in> fst ` set m"
  by (auto simp: frequency_def split: option.splits jsval.splits dest: map_of_SomeD
      intro: rev_image_eqI)

lemma concat_map_filter:
  "concat (map (\<lambda>w. if P w then [f w] else []) xs) = map f (filter P xs)"
  by (induction xs) simp_all

lemma wordData_eq:
  "wordData u g =
     map (wordEntry u g)
       (filter (\<lambda>w. 0 < frequency u w) (newSet (map fst u @ map fst g)))"
proof -
  have "wordData u g =
     concat (map (\<lambda>w. if 0 < frequency u w then [wordEntry u g w] else [])
       (newSet (map fst u @ map fst g)))"
    unfolding wordData_def Let_def wordEntry_def
    by (intro arg_cong[where f = concat] map_cong refl)
       (auto simp: user_count_positive user_count_value)
  then show ?thesis by (simp add: concat_map_filter)
qed

text \<open>
  Where both maps hold numbers the word diff is what the specification describes: one
  entry for each word with a positive number in the scripting-enabled map, weighted
  with that number, and green exactly when the no-scripting map holds a positive
  number for the word.
\<close>

lemma wordData_entries:
  "distinct (map word (wordData u g))
   \<and> (\<forall>w. w \<in> set (map word (wordData u g)) \<longleftrightarrow> 0 < frequency u w)
   \<and> (\<forall>e \<in> set (wordData u g).
        weight e = Number (frequency u (word e)) \<and> weight e \<noteq> Number 0
        \<and> (color e = js ''#4CAF50'' \<or> color e = js ''#808080'')
        \<and> (color e = js ''#4CAF50'' \<longleftrightarrow> 0 < frequency g (word e)))"
proof -
  have w: "map word (wordData u g)
        = filter (\<lambda>w. 0 < frequency u w) (newSet (map fst u @ map fst g))"
    unfolding wordData_eq by (simp add: comp_def wordEntry_def)
  have 1: "distinct (map word (wordData u g))"
    unfolding w by (simp add: distinct_newSet)
  have 2: "\<forall>w. w \<in> set (map word (wordData u g)) \<longleftrightarrow> 0 < frequency u w"
    unfolding w using frequency_positive_key[of u] by (auto simp: set_newSet)
  have 3: "\<forall>e \<in> set (wordData u g).
        weight e = Number (frequency u (word e)) \<and> weight e \<noteq> Number 0
        \<and> (color e = js ''#4CAF50'' \<or> color e = js ''#808080'')
        \<and> (color e = js ''#4CAF50'' \<longleftrightarrow> 0 < frequency g (word e))"
    unfolding wordData_eq using green_grey by (auto simp: wordEntry_def)
  from 1 2 3 show ?thesis by blast
qed

lemma constructor_counts:
  "generateWordFrequencies (js ''The constructor builds'')
   = [(js ''constructor'', MemberText (NativeFunction (js ''Object'')) 1),
      (js ''builds'', Number 1)]"
  by (simp add: generateWordFrequencies_def js_def isWordChar_def humanReadable_def
      stopWords_def getProperty_def objectPrototype_def)

lemma empty_counts: "generateWordFrequencies [] = []"
  by (simp add: generateWordFrequencies_def humanReadable_def)

text \<open>
  C8, at the word \<open>constructor\<close>. In the scripting-enabled text "The constructor
  builds" the word occurs once, but line 225 reads the inherited function \<open>Object\<close>
  under that key and stores a string, not the count 1; line 414 then finds no positive
  number and the word diff has no entry for the word.
\<close>

theorem wordDiff_constructor:
  "generateWordFrequencies (js ''The constructor builds'')
   = [(js ''constructor'', MemberText (NativeFunction (js ''Object'')) 1),
      (js ''builds'', Number 1)]
   \<and> wordDiff (js ''The constructor builds'') []
     = [\<lparr>word = js ''builds'', weight = Number 1, color = js ''#808080''\<rparr>]"
  unfolding wordDiff_def constructor_counts empty_counts
  by (simp add: wordData_def newSet_def getProperty_def objectPrototype_def js_def)

end
